theory Spec2Isabelle
  imports Main
begin

text \<open>
  A model of the Mython interpreter, and what holds of it. The sources hold the
  program in more than one state. src/unnamed/part_000 is the runtime with all of its
  functions written; the first file in src/runtime.cpp is an earlier state of the same
  runtime, and the second file there holds the statements of the syntax tree. The
  first file in src/lexer.cpp is the lexer that buffers a line; the second one there
  reads character by character. Where two states of one function differ and a
  property depends on it, both are modelled, and the one of the earlier state carries
  the suffix \<open>_draft\<close>.

  Exceptions and undefined behaviour are values: a function returns either what the
  source returns or what it ends in instead. The trailing underscore of a member name
  is dropped or replaced, since no name may end in one here.
\<close>

section \<open>Runtime values, classes and the syntax tree\<close>

text \<open>
  The interpreter's runtime objects (\<^verbatim>\<open>runtime::Object\<close> and its subclasses) and the
  nodes of the syntax tree (\<^verbatim>\<open>ast::Statement\<close> and its subclasses) refer to each other:
  a method owns its body, a class definition node owns a class. An \<^verbatim>\<open>ObjectHolder\<close> is a
  possibly empty shared pointer: \<open>None\<close> is the empty holder, \<open>Some obj\<close> a holder of
  \<open>obj\<close>. Numbers, strings, booleans and classes are never modified once they are made, so
  they are held by value; a class instance has fields that change, so a holder of one is
  the address of the instance in the interpreter's store. The parent of a class is given
  to its constructor and never changes, so the chain of parents is finite and a class
  holds its parent by value as well.
\<close>

text \<open>
  Modelled from the spec: runtime.h and statement.h, which declare the classes, are not
  among the sources. The kinds of values, the three members of a method and the members of
  a class are those of the specification's data model and of the constructors and member
  functions in the sources. A constant (\<open>ValueStatement\<close>) is a node that returns the
  holder it was built with, and the comparator of a \<open>Comparison\<close> is one of the six
  comparison functions the specification lists.
\<close>

datatype Comparator = CmpEqual | CmpNotEqual | CmpLess | CmpGreater
  | CmpLessOrEqual | CmpGreaterOrEqual

datatype Object =
    Number int
  | String string
  | Bool bool
  | ClassObj Class
  | ClassInstance nat
and Class = Class (class_name: string) (class_methods: "Method list") (class_parent: "Class option")
and Method = Method (name: string) (formal_params: "string list") (body: Statement)
and Statement =
    ValueStatement "Object option"
  | VariableValue "string list"
  | Assignment string Statement
  | FieldAssignment "string list" string Statement
  | Print "Statement list"
  | MethodCall Statement string "Statement list"
  | Stringify Statement
  | Add Statement Statement
  | Sub Statement Statement
  | Mult Statement Statement
  | Div Statement Statement
  | Compound "Statement list"
  | Return Statement
  | ClassDefinition "Object option"
  | IfElse Statement Statement "Statement option"
  | Or Statement Statement
  | And Statement Statement
  | Not_stmt Statement
  | Comparison Comparator Statement Statement
  | NewInstance Class "Statement list"
  | MethodBody Statement

type_synonym ObjectHolder = "Object option"

type_synonym Closure = "string \<rightharpoonup> ObjectHolder"

subsection \<open>IsTrue\<close>

text \<open>
  \<^verbatim>\<open>IsTrue\<close> of src/unnamed/part_000, the runtime with every stub filled in. The chain of
  \<^verbatim>\<open>TryAs\<close> tests covers every kind of object, so the closing \<^verbatim>\<open>return true\<close> is never
  reached.
\<close>

fun IsTrue :: "ObjectHolder \<Rightarrow> bool" where
  "IsTrue None = False"
| "IsTrue (Some (Bool b)) = b"
| "IsTrue (Some (Number n)) = (n \<noteq> 0)"
| "IsTrue (Some (String s)) = (s \<noteq> [])"
| "IsTrue (Some (ClassObj c)) = False"
| "IsTrue (Some (ClassInstance a)) = False"

text \<open>
  \<^verbatim>\<open>IsTrue\<close> of src/runtime.cpp, the earlier state of the same file: only \<^verbatim>\<open>Bool\<close>,
  \<^verbatim>\<open>Number\<close> and \<^verbatim>\<open>String\<close> are tested, and every other non-empty holder falls through
  to \<^verbatim>\<open>return true\<close>.
\<close>

fun IsTrue_draft :: "ObjectHolder \<Rightarrow> bool" where
  "IsTrue_draft None = False"
| "IsTrue_draft (Some (Bool b)) = b"
| "IsTrue_draft (Some (Number n)) = (n \<noteq> 0)"
| "IsTrue_draft (Some (String s)) = (s \<noteq> [])"
| "IsTrue_draft (Some obj) = True"

subsection \<open>Classes and method lookup\<close>

text \<open>
  The constructor of \<^verbatim>\<open>Class\<close> fills \<^verbatim>\<open>methods_by_name\<close> in a loop over the indices of
  \<^verbatim>\<open>methods_\<close>: a later method of the same name overwrites the index of an earlier one.
  \<open>index_methods\<close> is that loop from index \<open>i\<close> on; the table of a class is a function
  of its method list, fixed at construction.
\<close>

fun index_methods :: "Method list \<Rightarrow> nat \<Rightarrow> (string \<rightharpoonup> nat) \<Rightarrow> (string \<rightharpoonup> nat)" where
  "index_methods [] i tab = tab"
| "index_methods (m # ms) i tab = index_methods ms (Suc i) (tab(name m \<mapsto> i))"

definition methods_by_name :: "Class \<Rightarrow> (string \<rightharpoonup> nat)" where
  "methods_by_name c = index_methods (class_methods c) 0 Map.empty"

text \<open>
  \<^verbatim>\<open>Class::GetMethod\<close> of src/unnamed/part_000: the class's own table first, then the
  parent. The null pointer is \<open>None\<close>. \<^verbatim>\<open>methods_.at\<close> would throw on an index out of
  range; \<open>own_method_in_range\<close> below shows that the table never holds one.
\<close>

fun GetMethod :: "Class \<Rightarrow> string \<Rightarrow> Method option" where
  "GetMethod (Class nm ms par) m =
     (case index_methods ms 0 Map.empty m of
        Some i \<Rightarrow> Some (ms ! i)
      | None \<Rightarrow> (case par of Some p \<Rightarrow> GetMethod p m | None \<Rightarrow> None))"

text \<open>
  \<^verbatim>\<open>Class::GetMethod\<close> of src/runtime.cpp: the class's own table only; \<^verbatim>\<open>parent_\<close> is
  stored by the constructor and never read.
\<close>

definition GetMethod_draft :: "Class \<Rightarrow> string \<Rightarrow> Method option" where
  "GetMethod_draft c m =
     (case methods_by_name c m of
        Some i \<Rightarrow> Some (class_methods c ! i)
      | None \<Rightarrow> None)"

text \<open>\<^verbatim>\<open>ClassInstance::HasMethod\<close>, as a function of the instance's class.\<close>

definition HasMethod :: "Class \<Rightarrow> string \<Rightarrow> nat \<Rightarrow> bool" where
  "HasMethod cls m argument_count =
     (case GetMethod cls m of
        Some p_method \<Rightarrow> length (formal_params p_method) = argument_count
      | None \<Rightarrow> False)"

text \<open>
  The walk the specification describes: the class, its parent, the parent's parent and
  so on, and the first class on that walk that declares a method called \<open>m\<close>.
\<close>

fun parent_chain :: "Class \<Rightarrow> Class list" where
  "parent_chain (Class nm ms par) =
     Class nm ms par # (case par of Some p \<Rightarrow> parent_chain p | None \<Rightarrow> [])"

definition declares :: "string \<Rightarrow> Class \<Rightarrow> bool" where
  "declares m c = (m \<in> name ` set (class_methods c))"

section \<open>The lexer\<close>

text \<open>
  The lexer of src/lexer.cpp, lines 1 to 299: the one that reads a whole line into a
  \<^verbatim>\<open>TextLine\<close> before it decides on \<^verbatim>\<open>Indent\<close> and \<^verbatim>\<open>Dedent\<close> tokens. The names of
  \<^verbatim>\<open>token_type\<close> carry the suffix \<open>_t\<close>, since several of them are names of runtime
  objects, of statements or of HOL as well.
\<close>

datatype Token =
    Number_t int | Id_t string | String_t string | Char_t char
  | Class_t | Return_t | If_t | Else_t | Def_t | Newline_t | Print_t
  | Indent_t | Dedent_t | And_t | Or_t | Not_t | Eq_t | NotEq_t
  | LessOrEq_t | GreaterOrEq_t | None_t | True_t | False_t | Eof_t

text \<open>
  What the lexer throws: \<^verbatim>\<open>LexerError\<close> with its message, and the \<^verbatim>\<open>std::out_of_range\<close>
  of \<^verbatim>\<open>std::stoi\<close>.
\<close>

datatype LexFailure = LexerError string | out_of_range_stoi

text \<open>
  The input stream is the list of characters not yet read. \<^verbatim>\<open>get\<close> at the end of the
  input returns \<^verbatim>\<open>EOF\<close> and sets \<^verbatim>\<open>failbit\<close>; from then on every \<^verbatim>\<open>get\<close> returns
  \<^verbatim>\<open>EOF\<close> and every \<^verbatim>\<open>unget\<close> does nothing, so the stream stays the empty list. After a
  \<^verbatim>\<open>get\<close> that read a character, \<^verbatim>\<open>unget\<close> puts that character back. \<^verbatim>\<open>isdigit\<close> and
  \<^verbatim>\<open>isalpha\<close> are those of the C locale, in which the program runs.
\<close>

type_synonym istream = "char list"

definition isdigit :: "char \<Rightarrow> bool" where
  "isdigit c = (c \<in> set ''0123456789'')"

definition isalpha :: "char \<Rightarrow> bool" where
  "isalpha c = (c \<in> set ''abcdefghijklmnopqrstuvwxyzABCDEFGHIJKLMNOPQRSTUVWXYZ'')"

text \<open>
  \<^verbatim>\<open>SkipSpaces\<close> reads up to the first character that is not a space and puts that one
  back; it returns the number of spaces. \<^verbatim>\<open>SkipComment\<close> reads up to the next newline
  and puts the newline back.
\<close>

definition SkipSpaces :: "istream \<Rightarrow> int \<times> istream" where
  "SkipSpaces inp =
     (int (length (takeWhile (\<lambda>c. c = CHR '' '') inp)), dropWhile (\<lambda>c. c = CHR '' '') inp)"

definition SkipComment :: "istream \<Rightarrow> istream" where
  "SkipComment inp = dropWhile (\<lambda>c. c \<noteq> CHR ''\<newline>'') inp"

text \<open>
  \<^verbatim>\<open>TextLine::ReadString\<close> walks the stream buffer from the character after the opening
  quote. \<open>escaped\<close> is its \<^verbatim>\<open>switch\<close> over the character after a backslash (\<open>0x22\<close> is
  the double quote, \<open>0x27\<close> the single quote, \<open>0x5C\<close> the backslash, \<open>0x09\<close> the tab and
  \<open>0x0D\<close> the carriage return).
\<close>

definition escaped :: "char \<Rightarrow> char option" where
  "escaped e =
     (if e = CHR ''n'' then Some (CHR ''\<newline>'')
      else if e = CHR ''t'' then Some (CHR 0x09)
      else if e = CHR ''r'' then Some (CHR 0x0D)
      else if e = CHR 0x22 then Some (CHR 0x22)
      else if e = CHR 0x27 then Some (CHR 0x27)
      else if e = CHR 0x5C then Some (CHR 0x5C)
      else None)"

fun ReadString_loop :: "char \<Rightarrow> string \<Rightarrow> istream \<Rightarrow> LexFailure + (string \<times> istream)" where
  "ReadString_loop begin_quote s [] = Inl (LexerError ''String parsing error'')"
| "ReadString_loop begin_quote s (ch # it) =
     (if ch = begin_quote then Inr (s, it)
      else if ch = CHR 0x5C then
        (case it of
           [] \<Rightarrow> Inl (LexerError ''String parsing error'')
         | escaped_char # it' \<Rightarrow>
             (case escaped escaped_char of
                Some c \<Rightarrow> ReadString_loop begin_quote (s @ [c]) it'
              | None \<Rightarrow> Inl (LexerError (''Unrecognized escape sequence '' @ [CHR 0x5C, escaped_char]))))
      else if ch = CHR ''\<newline>'' \<or> ch = CHR 0x0D then Inl (LexerError ''Unexpected end of line'')
      else ReadString_loop begin_quote (s @ [ch]) it)"

text \<open>
  \<^verbatim>\<open>std::stoi\<close> on a string of decimal digits: the value in base ten, and
  \<^verbatim>\<open>std::out_of_range\<close> when the value does not fit an \<^verbatim>\<open>int\<close>. An \<^verbatim>\<open>int\<close> has 32 bits on
  the platforms the project builds for, so \<open>INT_MAX\<close> is \<open>2^31 - 1\<close>.
\<close>

definition digit_value :: "char \<Rightarrow> int" where
  "digit_value c = int (of_char c) - 48"

definition decimal :: "string \<Rightarrow> int" where
  "decimal s = foldl (\<lambda>v c. 10 * v + digit_value c) 0 s"

definition INT_MAX :: int where
  "INT_MAX = 2147483647"

definition stoi :: "string \<Rightarrow> LexFailure + int" where
  "stoi s = (if decimal s \<le> INT_MAX then Inr (decimal s) else Inl out_of_range_stoi)"

text \<open>The chain of comparisons at the end of \<^verbatim>\<open>TextLine::ReadIdentifier\<close>.\<close>

definition keyword :: "string \<Rightarrow> Token" where
  "keyword s =
     (if s = ''class'' then Class_t
      else if s = ''return'' then Return_t
      else if s = ''if'' then If_t
      else if s = ''else'' then Else_t
      else if s = ''def'' then Def_t
      else if s = ''print'' then Print_t
      else if s = ''and'' then And_t
      else if s = ''or'' then Or_t
      else if s = ''not'' then Not_t
      else if s = ''None'' then None_t
      else if s = ''True'' then True_t
      else if s = ''False'' then False_t
      else Id_t s)"

text \<open>
  The readers of one token. Each takes the tokens of the line so far, the stream after
  the character \<^verbatim>\<open>ReadLine\<close> has just read, and that character; each returns the tokens
  with the new one appended and the stream after the token. \<^verbatim>\<open>ReadComparison\<close> is called
  only when the next character is \<open>=\<close>, which it reads.
\<close>

definition ReadString :: "Token list \<Rightarrow> istream \<Rightarrow> char \<Rightarrow> LexFailure + (Token list \<times> istream)" where
  "ReadString tokens inp begin_quote =
     (case ReadString_loop begin_quote [] inp of
        Inl e \<Rightarrow> Inl e
      | Inr (s, inp') \<Rightarrow> Inr (tokens @ [String_t s], inp'))"

definition ReadNumber :: "Token list \<Rightarrow> istream \<Rightarrow> char \<Rightarrow> LexFailure + (Token list \<times> istream)" where
  "ReadNumber tokens inp first_dig =
     (case stoi (first_dig # takeWhile isdigit inp) of
        Inl e \<Rightarrow> Inl e
      | Inr v \<Rightarrow> Inr (tokens @ [Number_t v], dropWhile isdigit inp))"

definition ReadIdentifier :: "Token list \<Rightarrow> istream \<Rightarrow> char \<Rightarrow> Token list \<times> istream" where
  "ReadIdentifier tokens inp first_sym =
     (let is_part = (\<lambda>ch. isalpha ch \<or> ch = CHR ''_'' \<or> isdigit ch)
      in (tokens @ [keyword (first_sym # takeWhile is_part inp)], dropWhile is_part inp))"

definition ReadComparison :: "Token list \<Rightarrow> istream \<Rightarrow> char \<Rightarrow> Token list \<times> istream" where
  "ReadComparison tokens inp ch =
     ((if ch = CHR ''!'' then tokens @ [NotEq_t]
       else if ch = CHR ''='' then tokens @ [Eq_t]
       else if ch = CHR ''<'' then tokens @ [LessOrEq_t]
       else if ch = CHR ''>'' then tokens @ [GreaterOrEq_t]
       else tokens),
      drop 1 inp)"

text \<open>\<^verbatim>\<open>TextLine::IsEmpty\<close> and \<^verbatim>\<open>TextLine::IsEofOnly\<close>, on the tokens of a line.\<close>

definition IsEmpty :: "Token list \<Rightarrow> bool" where
  "IsEmpty tokens = (tokens = [] \<or> list_all (\<lambda>t. t = Newline_t) tokens)"

definition IsEofOnly :: "Token list \<Rightarrow> bool" where
  "IsEofOnly tokens = (tokens = [] \<or> list_all (\<lambda>t. t = Eof_t) tokens)"

text \<open>
  The \<^verbatim>\<open>do ... while\<close> loop of \<^verbatim>\<open>TextLine::ReadLine\<close>: one round per character read, until
  a newline or the end of the input. No reader returns a longer stream than it was
  given, so the loop ends.
\<close>

lemma ReadString_loop_shorter:
  "ReadString_loop q s inp = Inr (s', inp') \<Longrightarrow> length inp' < length inp"
proof (induction q s inp arbitrary: s' inp' rule: ReadString_loop.induct)
  case (1 q s)
  then show ?case by simp
next
  case (2 q s ch it)
  show ?case
  proof (cases "ch = q")
    case True
    with "2.prems" show ?thesis by simp
  next
    case nq: False
    show ?thesis
    proof (cases "ch = CHR 0x5C")
      case True
      with nq "2.prems" obtain e it' c where it: "it = e # it'" and e: "escaped e = Some c"
        and r: "ReadString_loop q (s @ [c]) it' = Inr (s', inp')"
        by (auto split: list.splits option.splits)
      from "2.IH"(1) [OF nq True it e r] it show ?thesis by simp
    next
      case False
      with nq "2.prems" have nl: "\<not> (ch = CHR ''\<newline>'' \<or> ch = CHR 0x0D)"
        and r: "ReadString_loop q (s @ [ch]) it = Inr (s', inp')"
        by (auto split: if_splits)
      from "2.IH"(2) [OF nq False nl r] show ?thesis by simp
    qed
  qed
qed

lemma SkipSpaces_shorter: "length (snd (SkipSpaces inp)) \<le> length inp"
  by (simp add: SkipSpaces_def length_dropWhile_le)

lemma SkipComment_shorter: "length (SkipComment inp) \<le> length inp"
  by (simp add: SkipComment_def length_dropWhile_le)

lemma ReadString_shorter:
  "ReadString tokens inp q = Inr (tokens', inp') \<Longrightarrow> length inp' \<le> length inp"
  by (auto simp: ReadString_def split: sum.splits dest: ReadString_loop_shorter)

lemma ReadNumber_shorter:
  "ReadNumber tokens inp c = Inr (tokens', inp') \<Longrightarrow> length inp' \<le> length inp"
  by (auto simp: ReadNumber_def length_dropWhile_le split: sum.splits)

lemma ReadIdentifier_shorter: "length (snd (ReadIdentifier tokens inp c)) \<le> length inp"
  by (simp add: ReadIdentifier_def Let_def length_dropWhile_le)

lemma ReadComparison_shorter: "length (snd (ReadComparison tokens inp c)) \<le> length inp"
  by (simp add: ReadComparison_def)

function ReadLine_loop :: "Token list \<Rightarrow> istream \<Rightarrow> LexFailure + (Token list \<times> istream)" where
  "ReadLine_loop tokens [] =
     Inr ((if \<not> IsEmpty tokens \<and> last tokens \<noteq> Newline_t then tokens @ [Newline_t] else tokens)
            @ [Eof_t], [])"
| "ReadLine_loop tokens (ch # inp) =
     (if ch = CHR '' '' then ReadLine_loop tokens (snd (SkipSpaces inp))
      else if ch = CHR ''#'' then ReadLine_loop tokens (SkipComment inp)
      else if ch = CHR ''\<newline>'' then Inr (tokens @ [Newline_t], inp)
      else if ch = CHR 0x22 \<or> ch = CHR 0x27 then
        (case ReadString tokens inp ch of
           Inl e \<Rightarrow> Inl e
         | Inr (tokens', inp') \<Rightarrow> ReadLine_loop tokens' inp')
      else if isdigit ch then
        (case ReadNumber tokens inp ch of
           Inl e \<Rightarrow> Inl e
         | Inr (tokens', inp') \<Rightarrow> ReadLine_loop tokens' inp')
      else if isalpha ch \<or> ch = CHR ''_'' then
        ReadLine_loop (fst (ReadIdentifier tokens inp ch)) (snd (ReadIdentifier tokens inp ch))
      else if (ch = CHR ''!'' \<or> ch = CHR ''='' \<or> ch = CHR ''<'' \<or> ch = CHR ''>'')
              \<and> take 1 inp = ''='' then
        ReadLine_loop (fst (ReadComparison tokens inp ch)) (snd (ReadComparison tokens inp ch))
      else ReadLine_loop (tokens @ [Char_t ch]) inp)"
  by pat_completeness auto
termination
proof (relation "measure (\<lambda>(tokens, inp). length inp)")
  show "wf (measure (\<lambda>(tokens, inp). length inp))" by simp
next
  fix tokens :: "Token list" and ch :: char and inp :: istream
  show "((tokens, snd (SkipSpaces inp)), tokens, ch # inp) \<in> measure (\<lambda>(tokens, inp). length inp)"
    by (simp add: SkipSpaces_shorter less_Suc_eq_le)
  show "((tokens, SkipComment inp), tokens, ch # inp) \<in> measure (\<lambda>(tokens, inp). length inp)"
    by (simp add: SkipComment_shorter less_Suc_eq_le)
  show "((fst (ReadIdentifier tokens inp ch), snd (ReadIdentifier tokens inp ch)), tokens, ch # inp)
          \<in> measure (\<lambda>(tokens, inp). length inp)"
    by (simp add: ReadIdentifier_shorter less_Suc_eq_le split_def)
  show "((fst (ReadComparison tokens inp ch), snd (ReadComparison tokens inp ch)), tokens, ch # inp)
          \<in> measure (\<lambda>(tokens, inp). length inp)"
    by (simp add: ReadComparison_shorter less_Suc_eq_le split_def)
  show "((tokens @ [Char_t ch], inp), tokens, ch # inp) \<in> measure (\<lambda>(tokens, inp). length inp)"
    by simp
next
  fix tokens :: "Token list" and ch :: char and inp :: istream and x2 tokens' inp'
  assume "ReadString tokens inp ch = Inr x2" and "(tokens', inp') = x2"
  then show "((tokens', inp'), tokens, ch # inp) \<in> measure (\<lambda>(tokens, inp). length inp)"
    using ReadString_shorter [of tokens inp ch tokens' inp'] by auto
next
  fix tokens :: "Token list" and ch :: char and inp :: istream and x2 tokens' inp'
  assume "ReadNumber tokens inp ch = Inr x2" and "(tokens', inp') = x2"
  then show "((tokens', inp'), tokens, ch # inp) \<in> measure (\<lambda>(tokens, inp). length inp)"
    using ReadNumber_shorter [of tokens inp ch tokens' inp'] by auto
qed

record TextLine =
  indent :: int
  line_tokens :: "Token list"

definition ReadLine :: "istream \<Rightarrow> LexFailure + (TextLine \<times> istream)" where
  "ReadLine inp =
     (case ReadLine_loop [] (snd (SkipSpaces inp)) of
        Inl e \<Rightarrow> Inl e
      | Inr (tokens, inp') \<Rightarrow> Inr (\<lparr>indent = fst (SkipSpaces inp), line_tokens = tokens\<rparr>, inp'))"

text \<open>
  The \<^verbatim>\<open>for\<close> loop of \<^verbatim>\<open>Lexer::NextToken\<close> reads lines until one is not empty. A line
  that is empty holds no \<^verbatim>\<open>Eof\<close>, so reading it has consumed at least its newline, and
  the loop ends.
\<close>

lemma ReadLine_loop_consumes:
  "ReadLine_loop tokens inp = Inr (tokens', inp') \<Longrightarrow>
     length inp' \<le> length inp \<and>
     ((inp = [] \<and> Eof_t \<in> set tokens') \<or> length inp' < length inp)"
proof (induction tokens inp arbitrary: tokens' inp' rule: ReadLine_loop.induct)
  case (1 tokens)
  then show ?case by auto
next
  case (2 tokens ch inp)
  show ?case
  proof -
    have "length inp' \<le> length inp"
    proof -
      consider (sp) "ch = CHR '' ''"
        | (cm) "ch \<noteq> CHR '' ''" "ch = CHR ''#''"
        | (nl) "ch \<noteq> CHR '' ''" "ch \<noteq> CHR ''#''" "ch = CHR ''\<newline>''"
        | (st) "ch \<noteq> CHR '' ''" "ch \<noteq> CHR ''#''" "ch \<noteq> CHR ''\<newline>''"
               "ch = CHR 0x22 \<or> ch = CHR 0x27"
        | (nu) "ch \<noteq> CHR '' ''" "ch \<noteq> CHR ''#''" "ch \<noteq> CHR ''\<newline>''"
               "\<not> (ch = CHR 0x22 \<or> ch = CHR 0x27)" "isdigit ch"
        | (idn) "ch \<noteq> CHR '' ''" "ch \<noteq> CHR ''#''" "ch \<noteq> CHR ''\<newline>''"
               "\<not> (ch = CHR 0x22 \<or> ch = CHR 0x27)" "\<not> isdigit ch" "isalpha ch \<or> ch = CHR ''_''"
        | (cmp) "ch \<noteq> CHR '' ''" "ch \<noteq> CHR ''#''" "ch \<noteq> CHR ''\<newline>''"
               "\<not> (ch = CHR 0x22 \<or> ch = CHR 0x27)" "\<not> isdigit ch" "\<not> (isalpha ch \<or> ch = CHR ''_'')"
               "(ch = CHR ''!'' \<or> ch = CHR ''='' \<or> ch = CHR ''<'' \<or> ch = CHR ''>'') \<and> take 1 inp = ''=''"
        | (chr) "ch \<noteq> CHR '' ''" "ch \<noteq> CHR ''#''" "ch \<noteq> CHR ''\<newline>''"
               "\<not> (ch = CHR 0x22 \<or> ch = CHR 0x27)" "\<not> isdigit ch" "\<not> (isalpha ch \<or> ch = CHR ''_'')"
               "\<not> ((ch = CHR ''!'' \<or> ch = CHR ''='' \<or> ch = CHR ''<'' \<or> ch = CHR ''>'') \<and> take 1 inp = ''='')"
        by blast
      then show ?thesis
      proof cases
        case sp
        with "2.prems" have "ReadLine_loop tokens (snd (SkipSpaces inp)) = Inr (tokens', inp')" by simp
        from "2.IH"(1) [OF sp this] SkipSpaces_shorter [of inp] show ?thesis by auto
      next
        case cm
        with "2.prems" have "ReadLine_loop tokens (SkipComment inp) = Inr (tokens', inp')" by simp
        from "2.IH"(2) [OF cm this] SkipComment_shorter [of inp] show ?thesis by auto
      next
        case nl
        with "2.prems" show ?thesis by simp
      next
        case st
        with "2.prems" obtain t1 i1 where r: "ReadString tokens inp ch = Inr (t1, i1)"
          and l: "ReadLine_loop t1 i1 = Inr (tokens', inp')"
          by (auto split: sum.splits)
        from "2.IH"(3) [OF st r refl l] ReadString_shorter [OF r] show ?thesis by auto
      next
        case nu
        with "2.prems" obtain t1 i1 where r: "ReadNumber tokens inp ch = Inr (t1, i1)"
          and l: "ReadLine_loop t1 i1 = Inr (tokens', inp')"
          by (auto split: sum.splits)
        from "2.IH"(4) [OF nu r refl l] ReadNumber_shorter [OF r] show ?thesis by auto
      next
        case idn
        with "2.prems" have l: "ReadLine_loop (fst (ReadIdentifier tokens inp ch))
            (snd (ReadIdentifier tokens inp ch)) = Inr (tokens', inp')" by simp
        from "2.IH"(5) [OF idn l] ReadIdentifier_shorter [of tokens inp ch] show ?thesis by auto
      next
        case cmp
        with "2.prems" have l: "ReadLine_loop (fst (ReadComparison tokens inp ch))
            (snd (ReadComparison tokens inp ch)) = Inr (tokens', inp')" by simp
        from "2.IH"(6) [OF cmp l] ReadComparison_shorter [of tokens inp ch] show ?thesis by auto
      next
        case chr
        with "2.prems" have l: "ReadLine_loop (tokens @ [Char_t ch]) inp = Inr (tokens', inp')" by auto
        from "2.IH"(7) [OF chr l] show ?thesis by auto
      qed
    qed
    then show ?thesis by simp
  qed
qed

lemma ReadLine_consumes:
  assumes "ReadLine inp = Inr (line, inp')" and "IsEmpty (line_tokens line)"
  shows "length inp' < length inp"
proof -
  from assms(1) obtain tokens where l: "ReadLine_loop [] (snd (SkipSpaces inp)) = Inr (tokens, inp')"
    and t: "line_tokens line = tokens"
    by (auto simp: ReadLine_def split: sum.splits)
  from assms(2) t have "Eof_t \<notin> set tokens"
    by (auto simp: IsEmpty_def list_all_iff)
  with ReadLine_loop_consumes [OF l] have "length inp' < length (snd (SkipSpaces inp))" by blast
  with SkipSpaces_shorter [of inp] show ?thesis by simp
qed

function next_line :: "istream \<Rightarrow> LexFailure + (TextLine \<times> istream)" where
  "next_line inp =
     (case ReadLine inp of
        Inl e \<Rightarrow> Inl e
      | Inr (line, inp') \<Rightarrow>
          if IsEmpty (line_tokens line) then next_line inp' else Inr (line, inp'))"
  by pat_completeness auto
termination
proof (relation "measure length")
  show "wf (measure length)" by simp
next
  fix inp x2 line inp'
  assume "ReadLine inp = Inr x2" and "(line, inp') = x2" and "IsEmpty (line_tokens line)"
  then show "(inp', inp) \<in> measure length"
    using ReadLine_consumes [of inp line inp'] by auto
qed

text \<open>
  Modelled from the spec: lexer.h, which declares the members of \<^verbatim>\<open>Lexer\<close>, is not among
  the sources. The specification has the indentation start at \<open>0\<close> and the first token
  be the current one once the lexer is constructed; the constructor's call of
  \<^verbatim>\<open>NextToken\<close> reads the first line only if \<open>curr_pos\<close> starts at \<open>-1\<close>.
\<close>

record Lexer =
  lexer_in :: istream
  lexer_tokens :: "Token list"
  curr_pos :: int
  current_indent :: int

text \<open>
  The part of \<^verbatim>\<open>NextToken\<close> after the parity check: the three \<^verbatim>\<open>if\<close> statements that
  emit \<^verbatim>\<open>Indent\<close> and \<^verbatim>\<open>Dedent\<close> tokens, one after the other, and the loop that copies
  the line's tokens.
\<close>

definition emit_line :: "TextLine \<Rightarrow> Lexer \<Rightarrow> Lexer" where
  "emit_line line lx =
     (let eof_only = IsEofOnly (line_tokens line);
          lx1 = (if \<not> eof_only \<and> indent line > current_indent lx
                 then lx\<lparr>lexer_tokens := lexer_tokens lx
                            @ replicate (nat ((indent line - current_indent lx) div 2)) Indent_t,
                         current_indent := indent line\<rparr>
                 else lx);
          lx2 = (if \<not> eof_only \<and> indent line < current_indent lx1
                 then lx1\<lparr>lexer_tokens := lexer_tokens lx1
                            @ replicate (nat ((current_indent lx1 - indent line) div 2)) Dedent_t,
                          current_indent := indent line\<rparr>
                 else lx1);
          lx3 = (if eof_only \<and> current_indent lx2 > 0
                 then lx2\<lparr>lexer_tokens := lexer_tokens lx2
                            @ replicate (nat (current_indent lx2 div 2)) Dedent_t,
                          current_indent := indent line\<rparr>
                 else lx2)
      in lx3\<lparr>lexer_tokens := lexer_tokens lx3 @ line_tokens line\<rparr>)"

text \<open>
  \<^verbatim>\<open>Lexer::NextToken\<close>. \<^verbatim>\<open>tokens_.at(curr_pos_)\<close> is within range on both paths: a line
  that is not empty has appended at least one token.
\<close>

definition NextToken :: "Lexer \<Rightarrow> LexFailure + (Token \<times> Lexer)" where
  "NextToken lx =
     (let lx0 = lx\<lparr>curr_pos := curr_pos lx + 1\<rparr> in
      if curr_pos lx0 = int (length (lexer_tokens lx0)) then
        if lexer_tokens lx0 \<noteq> [] \<and> last (lexer_tokens lx0) = Eof_t
        then Inr (last (lexer_tokens lx0), lx0\<lparr>curr_pos := curr_pos lx0 - 1\<rparr>)
        else
          (case next_line (lexer_in lx0) of
             Inl e \<Rightarrow> Inl e
           | Inr (line, inp') \<Rightarrow>
               if indent line mod 2 \<noteq> 0 then Inl (LexerError ''Bad indent size.'')
               else
                 (let lx1 = emit_line line (lx0\<lparr>lexer_in := inp'\<rparr>)
                  in Inr (lexer_tokens lx1 ! nat (curr_pos lx1), lx1)))
      else Inr (lexer_tokens lx0 ! nat (curr_pos lx0), lx0))"

text \<open>
  The constructor, and a caller that asks for \<open>n\<close> more tokens after it, as the parser
  does until the current token is \<^verbatim>\<open>Eof\<close>.
\<close>

definition new_Lexer :: "istream \<Rightarrow> LexFailure + (Token \<times> Lexer)" where
  "new_Lexer inp = NextToken \<lparr>lexer_in = inp, lexer_tokens = [], curr_pos = -1, current_indent = 0\<rparr>"

fun advance :: "nat \<Rightarrow> Token \<times> Lexer \<Rightarrow> LexFailure + (Token \<times> Lexer)" where
  "advance 0 cur = Inr cur"
| "advance (Suc n) cur =
     (case NextToken (snd cur) of Inl e \<Rightarrow> Inl e | Inr cur' \<Rightarrow> advance n cur')"

definition lex :: "nat \<Rightarrow> istream \<Rightarrow> LexFailure + (Token \<times> Lexer)" where
  "lex n inp = (case new_Lexer inp of Inl e \<Rightarrow> Inl e | Inr cur \<Rightarrow> advance n cur)"

text \<open>
  \<^verbatim>\<open>Lexer::ReadComparison\<close> of the second lexer in src/lexer.cpp (lines 512 to 533),
  which reads character by character without a line buffer: it reads the character
  after \<open>ch\<close> itself, and throws when an exclamation mark is not followed by \<open>=\<close>. It
  returns whether it appended a token.
\<close>

definition ReadComparison_draft ::
    "Token list \<Rightarrow> istream \<Rightarrow> char \<Rightarrow> LexFailure + (bool \<times> Token list \<times> istream)" where
  "ReadComparison_draft tokens inp ch =
     (let next = (case inp of [] \<Rightarrow> None | c # rest \<Rightarrow> Some c); inp' = drop 1 inp in
      if ch = CHR ''!'' then
        (if next = Some (CHR ''='') then Inr (True, tokens @ [NotEq_t], inp')
         else Inl (LexerError ''! without =''))
      else if ch = CHR ''='' \<and> next = Some (CHR ''='') then Inr (True, tokens @ [Eq_t], inp')
      else if ch = CHR ''<'' \<and> next = Some (CHR ''='') then Inr (True, tokens @ [LessOrEq_t], inp')
      else if ch = CHR ''>'' \<and> next = Some (CHR ''='') then Inr (True, tokens @ [GreaterOrEq_t], inp')
      else Inr (False, tokens, inp'))"

section \<open>The evaluator\<close>

text \<open>
  What a call can end in besides a value. \<^verbatim>\<open>std::runtime_error\<close> carries its message;
  \<^verbatim>\<open>std::out_of_range\<close> is what \<^verbatim>\<open>at\<close> of a closure throws on a missing key;
  \<^verbatim>\<open>ReturnException\<close> carries the holder a \<^verbatim>\<open>return\<close> statement unwinds with. \<open>Undefined\<close>
  stands for an execution that has left defined behaviour: a null pointer is
  dereferenced, the assertion of \<^verbatim>\<open>ObjectHolder::operator->\<close> fails, an integer is
  divided by zero or overflows. \<open>OutOfFuel\<close> is not an outcome of the program: the functions
  below take a bound on the depth of nested calls of \<^verbatim>\<open>Execute\<close>, and answer \<open>OutOfFuel\<close>
  where an execution needs more.

  \<open>Unowned\<close> is the answer where \<^verbatim>\<open>NewInstance::Execute\<close> is about to use the new instance
  through the plain pointer \<^verbatim>\<open>instance\<close> and the name whose holder owned the instance is
  no longer bound to it. The holder has then been destroyed. If it was the last holder
  that owned the instance, the instance has been destroyed with it and the call through
  \<^verbatim>\<open>instance\<close> has left defined behaviour; if a copy of the holder is still alive (one
  that an earlier argument has read), the call is defined. The model keeps no count of the
  holders of an instance and cannot tell the two apart, so it follows such an execution no
  further.
\<close>

datatype Exception = runtime_error string | out_of_range | ReturnException ObjectHolder

datatype Failure = Throws Exception | Undefined | Unowned | OutOfFuel

type_synonym 'a Outcome = "Failure + 'a"

text \<open>
  A class instance holds a reference to its class and its own closure of fields
  (\<^verbatim>\<open>cls_\<close> and \<^verbatim>\<open>closure_\<close>). The instances that have been constructed are kept in a
  list, and the address of an instance is its index there. No instance is ever taken
  from the list, and a holder of an instance is its address whether the holder shares the
  ownership of the instance or, made by \<^verbatim>\<open>ObjectHolder::Share\<close>, does not: the model does
  not follow the lifetimes of instances. The one exception is \<^verbatim>\<open>NewInstance::Execute\<close>,
  which keeps a plain pointer to the new instance across the evaluation of statements
  that can destroy the only holder that owns it (\<open>Unowned\<close> above).

  Modelled from the spec: runtime.h, which declares \<^verbatim>\<open>Context\<close>, is not among the
  sources. The specification gives the context an output stream and a slot for the self
  name; the state holds the text written to the stream and the name in the slot.
\<close>

record InstanceData =
  inst_cls :: Class
  inst_fields :: Closure

record State =
  instances :: "InstanceData list"
  output_stream :: string
  self_name :: string

definition instance_at :: "State \<Rightarrow> nat \<Rightarrow> InstanceData option" where
  "instance_at st a = (if a < length (instances st) then Some (instances st ! a) else None)"

definition SetSelfName :: "string \<Rightarrow> State \<Rightarrow> State" where
  "SetSelfName nm st = st\<lparr>self_name := nm\<rparr>"

definition GetSelfName :: "State \<Rightarrow> string" where
  "GetSelfName st = self_name st"

definition write_out :: "string \<Rightarrow> State \<Rightarrow> State" where
  "write_out str st = st\<lparr>output_stream := output_stream st @ str\<rparr>"

definition set_field :: "nat \<Rightarrow> string \<Rightarrow> ObjectHolder \<Rightarrow> State \<Rightarrow> State" where
  "set_field a field h st =
     st\<lparr>instances := (instances st)
           [a := (instances st ! a)\<lparr>inst_fields := (inst_fields (instances st ! a))(field \<mapsto> h)\<rparr>]\<rparr>"

text \<open>
  \<^verbatim>\<open>TryAs\<close> is a dynamic cast of the held pointer: the null pointer for an empty holder
  and for an object of another kind.
\<close>

fun as_Number :: "ObjectHolder \<Rightarrow> int option" where
  "as_Number (Some (Number v)) = Some v"
| "as_Number h = None"

fun as_String :: "ObjectHolder \<Rightarrow> string option" where
  "as_String (Some (String s)) = Some s"
| "as_String h = None"

fun as_Bool :: "ObjectHolder \<Rightarrow> bool option" where
  "as_Bool (Some (Bool b)) = Some b"
| "as_Bool h = None"

fun as_Class :: "ObjectHolder \<Rightarrow> Class option" where
  "as_Class (Some (ClassObj c)) = Some c"
| "as_Class h = None"

fun as_ClassInstance :: "ObjectHolder \<Rightarrow> nat option" where
  "as_ClassInstance (Some (ClassInstance a)) = Some a"
| "as_ClassInstance h = None"

definition both :: "'a option \<Rightarrow> 'b option \<Rightarrow> ('a \<times> 'b) option" where
  "both x y = (case x of None \<Rightarrow> None | Some a \<Rightarrow> (case y of None \<Rightarrow> None | Some b \<Rightarrow> Some (a, b)))"

text \<open>
  Modelled from the spec: runtime.h, which declares the payload type of \<^verbatim>\<open>Number\<close>, is not
  among the sources; the specification gives \<^verbatim>\<open>Number(int64)\<close>. A result of integer
  arithmetic outside that range is a signed overflow.
\<close>

definition Number_MIN :: int where
  "Number_MIN = - (2 ^ 63)"

definition Number_MAX :: int where
  "Number_MAX = 2 ^ 63 - 1"

definition Own_Number :: "int \<Rightarrow> ObjectHolder Outcome" where
  "Own_Number v = (if Number_MIN \<le> v \<and> v \<le> Number_MAX then Inr (Some (Number v)) else Inl Undefined)"

text \<open>
  The quotient of the built-in \<^verbatim>\<open>/\<close> on integers: it truncates towards zero, and it is
  undefined for the divisor zero and for a quotient that overflows.
\<close>

definition truncated_quotient :: "int \<Rightarrow> int \<Rightarrow> int" where
  "truncated_quotient a b =
     (if (a < 0) = (b < 0) then \<bar>a\<bar> div \<bar>b\<bar> else - (\<bar>a\<bar> div \<bar>b\<bar>))"

definition divide_Numbers :: "int \<Rightarrow> int \<Rightarrow> ObjectHolder Outcome" where
  "divide_Numbers a b = (if b = 0 then Inl Undefined else Own_Number (truncated_quotient a b))"

text \<open>\<^verbatim>\<open>VariableValue::GetName\<close>: the identifiers joined by dots.\<close>

fun GetName :: "string list \<Rightarrow> string" where
  "GetName [] = []"
| "GetName [i] = i"
| "GetName (i # ids) = i @ ''.'' @ GetName ids"

text \<open>
  The loop of \<^verbatim>\<open>VariableValue::Execute\<close>: \<open>p_closure\<close> moves on to the fields of each
  class instance it meets, and stays where it is at any other value.
\<close>

fun VariableValue_loop ::
    "string \<Rightarrow> State \<Rightarrow> Closure \<Rightarrow> string list \<Rightarrow> ObjectHolder \<Rightarrow> ObjectHolder Outcome" where
  "VariableValue_loop full_name st p_closure [] result = Inr result"
| "VariableValue_loop full_name st p_closure (i # ids) result =
     (case p_closure i of
        None \<Rightarrow> Inl (Throws (runtime_error (''Uncknown variable name: '' @ full_name)))
      | Some h \<Rightarrow>
          (case as_ClassInstance h of
             None \<Rightarrow> VariableValue_loop full_name st p_closure ids h
           | Some a \<Rightarrow>
               (case instance_at st a of
                  None \<Rightarrow> Inl Undefined
                | Some inst \<Rightarrow> VariableValue_loop full_name st (inst_fields inst) ids h)))"

text \<open>
  The loop of \<^verbatim>\<open>FieldAssignment::Execute\<close> that finds the closure to write to: \<open>None\<close>
  for the closure the statement runs in, \<open>Some a\<close> for the fields of the instance at
  \<open>a\<close>. \<^verbatim>\<open>at\<close> throws on a missing name, and for a value that is not a class
  instance \<^verbatim>\<open>TryAs\<close> yields the null pointer, which is dereferenced.
\<close>

fun FieldAssignment_loop ::
    "State \<Rightarrow> Closure \<Rightarrow> string list \<Rightarrow> nat option \<Rightarrow> (nat option) Outcome" where
  "FieldAssignment_loop st p_closure [] target = Inr target"
| "FieldAssignment_loop st p_closure (i # ids) target =
     (case p_closure i of
        None \<Rightarrow> Inl (Throws out_of_range)
      | Some val \<Rightarrow>
          (case as_ClassInstance val of
             None \<Rightarrow> Inl Undefined
           | Some a \<Rightarrow>
               (case instance_at st a of
                  None \<Rightarrow> Inl Undefined
                | Some inst \<Rightarrow> FieldAssignment_loop st (inst_fields inst) ids (Some a))))"

text \<open>
  Modelled from the spec: the \<^verbatim>\<open>Print\<close> of a number, a string and a truth value are
  declared in runtime.h, which is not among the sources. The specification has them print
  the decimal integer, the raw text of the string, and \<^verbatim>\<open>True\<close> or \<^verbatim>\<open>False\<close>.
\<close>

fun digits_of :: "nat \<Rightarrow> string" where
  "digits_of n =
     (if n < 10 then [char_of (48 + n)] else digits_of (n div 10) @ [char_of (48 + n mod 10)])"

definition text_of_int :: "int \<Rightarrow> string" where
  "text_of_int v = (if v < 0 then ''-'' @ digits_of (nat (- v)) else digits_of (nat v))"

text \<open>
  \<^verbatim>\<open>os << this\<close> writes the address of the instance, which no program can
  foretell; in its place the model writes the index of the instance.
\<close>

definition text_of_pointer :: "nat \<Rightarrow> string" where
  "text_of_pointer a = ''0x'' @ digits_of a"

text \<open>
  The closure \<^verbatim>\<open>ClassInstance::Call\<close> of src/unnamed/part_000 builds: \<open>self\<close> bound to a
  holder that shares the receiver, then each formal parameter bound to the actual
  argument at the same index, in order.
\<close>

fun bind_params :: "string list \<Rightarrow> ObjectHolder list \<Rightarrow> Closure \<Rightarrow> Closure" where
  "bind_params (p # ps) (a # as) locals = bind_params ps as (locals(p \<mapsto> a))"
| "bind_params ps as locals = locals"

definition Call_locals :: "nat \<Rightarrow> Method \<Rightarrow> ObjectHolder list \<Rightarrow> Closure" where
  "Call_locals this p_method actual_args =
     bind_params (formal_params p_method) actual_args
       (Map.empty(''self'' \<mapsto> Some (ClassInstance this)))"

text \<open>
  The last two statements of \<^verbatim>\<open>Equal\<close>, reached when no other case applies: two empty
  holders are equal, anything else cannot be compared.
\<close>

definition Equal_rest :: "ObjectHolder \<Rightarrow> ObjectHolder \<Rightarrow> bool Outcome" where
  "Equal_rest lhs rhs =
     (if lhs = None \<and> rhs = None then Inr True
      else Inl (Throws (runtime_error ''Cannot compare objects for equality'')))"

definition new_instance :: "Class \<Rightarrow> State \<Rightarrow> State" where
  "new_instance c st = st\<lparr>instances := instances st @ [\<lparr>inst_cls = c, inst_fields = Map.empty\<rparr>]\<rparr>"

text \<open>
  \<^verbatim>\<open>operator<\<close> of \<^verbatim>\<open>std::string\<close>: lexicographic, characters compared as unsigned
  bytes, a proper prefix before the longer string.
\<close>

fun string_less :: "string \<Rightarrow> string \<Rightarrow> bool" where
  "string_less [] [] = False"
| "string_less [] (y # ys) = True"
| "string_less (x # xs) [] = False"
| "string_less (x # xs) (y # ys) =
     ((of_char x :: nat) < of_char y \<or> (x = y \<and> string_less xs ys))"

text \<open>
  The last statement of \<^verbatim>\<open>Less\<close>, and the three comparisons of values of one kind that
  \<^verbatim>\<open>Equal\<close> and \<^verbatim>\<open>Less\<close> start with.
\<close>

definition Less_rest :: "bool Outcome" where
  "Less_rest = Inl (Throws (runtime_error ''Cannot compare objects for less''))"

definition Equal_values :: "ObjectHolder \<Rightarrow> ObjectHolder \<Rightarrow> bool option" where
  "Equal_values lhs rhs =
     (case both (as_Bool lhs) (as_Bool rhs) of
        Some (a, b) \<Rightarrow> Some (a = b)
      | None \<Rightarrow>
          (case both (as_Number lhs) (as_Number rhs) of
             Some (a, b) \<Rightarrow> Some (a = b)
           | None \<Rightarrow>
               (case both (as_String lhs) (as_String rhs) of
                  Some (a, b) \<Rightarrow> Some (a = b)
                | None \<Rightarrow> None)))"

definition Less_values :: "ObjectHolder \<Rightarrow> ObjectHolder \<Rightarrow> bool option" where
  "Less_values lhs rhs =
     (case both (as_Bool lhs) (as_Bool rhs) of
        Some (a, b) \<Rightarrow> Some (a < b)
      | None \<Rightarrow>
          (case both (as_Number lhs) (as_Number rhs) of
             Some (a, b) \<Rightarrow> Some (a < b)
           | None \<Rightarrow>
               (case both (as_String lhs) (as_String rhs) of
                  Some (a, b) \<Rightarrow> Some (string_less a b)
                | None \<Rightarrow> None)))"

text \<open>
  The evaluator is \<^verbatim>\<open>Execute\<close> of every statement of the second file in src/runtime.cpp
  (\<^verbatim>\<open>namespace ast\<close>, lines 185 to 502), with \<^verbatim>\<open>ClassInstance::Call\<close>,
  \<^verbatim>\<open>ClassInstance::Print\<close> and the comparison functions of src/unnamed/part_000, which it
  calls. Every function takes the state, and \<^verbatim>\<open>Execute\<close> the closure it runs in, and
  returns them as the call has left them, whatever the call ends in: an exception undoes
  nothing.

  The recursion of the evaluator runs through the bodies of methods, which are no part of
  the statement that calls them, so \<^verbatim>\<open>Execute\<close> is defined by recursion on a bound on the
  depth of its nested calls. The functions that call \<^verbatim>\<open>Execute\<close> take it as their
  first argument \<open>exec\<close>: it is \<^verbatim>\<open>Execute\<close> with the depth that is left. In the same way
  \<open>print_object\<close> is the virtual \<^verbatim>\<open>Print\<close> of an object with the depth that is left; it
  returns the text it writes to its stream.
\<close>

type_synonym Exec = "Statement \<Rightarrow> Closure \<Rightarrow> State \<Rightarrow> ObjectHolder Outcome \<times> Closure \<times> State"

type_synonym Printer = "Object \<Rightarrow> State \<Rightarrow> string Outcome \<times> State"

text \<open>
  \<^verbatim>\<open>ClassInstance::Call\<close> of src/unnamed/part_000, on the instance at address \<open>this\<close>.
  The closure \<open>locals\<close> is dropped when the call returns.
\<close>

definition Call :: "Exec \<Rightarrow> nat \<Rightarrow> string \<Rightarrow> ObjectHolder list \<Rightarrow> State \<Rightarrow> ObjectHolder Outcome \<times> State" where
  "Call exec this method actual_args st =
     (case instance_at st this of
        None \<Rightarrow> (Inl Undefined, st)
      | Some inst \<Rightarrow>
          if \<not> HasMethod (inst_cls inst) method (length actual_args)
          then (Inl (Throws (runtime_error ''Method not found.'')), st)
          else
            (case GetMethod (inst_cls inst) method of
               None \<Rightarrow> (Inl Undefined, st)
             | Some p_method \<Rightarrow>
                 (case exec (body p_method) (Call_locals this p_method actual_args) st of
                    (r, locals, st') \<Rightarrow> (r, st'))))"

text \<open>The comparison functions of src/unnamed/part_000.\<close>

definition Equal :: "Exec \<Rightarrow> ObjectHolder \<Rightarrow> ObjectHolder \<Rightarrow> State \<Rightarrow> bool Outcome \<times> State" where
  "Equal exec lhs rhs st =
     (case Equal_values lhs rhs of
        Some b \<Rightarrow> (Inr b, st)
      | None \<Rightarrow>
          (case as_ClassInstance lhs of
             None \<Rightarrow> (Equal_rest lhs rhs, st)
           | Some a \<Rightarrow>
               (case instance_at st a of
                  None \<Rightarrow> (Inl Undefined, st)
                | Some inst \<Rightarrow>
                    if HasMethod (inst_cls inst) ''__eq__'' 1 then
                      (case Call exec a ''__eq__'' [rhs] st of
                         (Inl f, st1) \<Rightarrow> (Inl f, st1)
                       | (Inr r, st1) \<Rightarrow>
                           (case as_Bool r of
                              None \<Rightarrow> (Inl Undefined, st1)
                            | Some b \<Rightarrow> (Inr b, st1)))
                    else (Equal_rest lhs rhs, st))))"

definition Less :: "Exec \<Rightarrow> ObjectHolder \<Rightarrow> ObjectHolder \<Rightarrow> State \<Rightarrow> bool Outcome \<times> State" where
  "Less exec lhs rhs st =
     (case Less_values lhs rhs of
        Some b \<Rightarrow> (Inr b, st)
      | None \<Rightarrow>
          (case as_ClassInstance lhs of
             None \<Rightarrow> (Less_rest, st)
           | Some a \<Rightarrow>
               (case instance_at st a of
                  None \<Rightarrow> (Inl Undefined, st)
                | Some inst \<Rightarrow>
                    if HasMethod (inst_cls inst) ''__lt__'' 1 then
                      (case Call exec a ''__lt__'' [rhs] st of
                         (Inl f, st1) \<Rightarrow> (Inl f, st1)
                       | (Inr r, st1) \<Rightarrow>
                           (case as_Bool r of
                              None \<Rightarrow> (Inl Undefined, st1)
                            | Some b \<Rightarrow> (Inr b, st1)))
                    else (Less_rest, st))))"

definition NotEqual :: "Exec \<Rightarrow> ObjectHolder \<Rightarrow> ObjectHolder \<Rightarrow> State \<Rightarrow> bool Outcome \<times> State" where
  "NotEqual exec lhs rhs st =
     (case Equal exec lhs rhs st of
        (Inl f, st1) \<Rightarrow> (Inl f, st1)
      | (Inr e, st1) \<Rightarrow> (Inr (\<not> e), st1))"

definition Greater :: "Exec \<Rightarrow> ObjectHolder \<Rightarrow> ObjectHolder \<Rightarrow> State \<Rightarrow> bool Outcome \<times> State" where
  "Greater exec lhs rhs st =
     (case Less exec lhs rhs st of
        (Inl f, st1) \<Rightarrow> (Inl f, st1)
      | (Inr l, st1) \<Rightarrow>
          if l then (Inr (\<not> l), st1)
          else
            (case Equal exec lhs rhs st1 of
               (Inl f, st2) \<Rightarrow> (Inl f, st2)
             | (Inr e, st2) \<Rightarrow> (Inr (\<not> (l \<or> e)), st2)))"

definition LessOrEqual :: "Exec \<Rightarrow> ObjectHolder \<Rightarrow> ObjectHolder \<Rightarrow> State \<Rightarrow> bool Outcome \<times> State" where
  "LessOrEqual exec lhs rhs st =
     (case Greater exec lhs rhs st of
        (Inl f, st1) \<Rightarrow> (Inl f, st1)
      | (Inr g, st1) \<Rightarrow> (Inr (\<not> g), st1))"

definition GreaterOrEqual :: "Exec \<Rightarrow> ObjectHolder \<Rightarrow> ObjectHolder \<Rightarrow> State \<Rightarrow> bool Outcome \<times> State" where
  "GreaterOrEqual exec lhs rhs st =
     (case Less exec lhs rhs st of
        (Inl f, st1) \<Rightarrow> (Inl f, st1)
      | (Inr l, st1) \<Rightarrow> (Inr (\<not> l), st1))"

text \<open>
  \<open>ExecuteArgs\<close> is the loop that evaluates the arguments of a call and appends each
  result to \<open>actual_args\<close>, in \<^verbatim>\<open>MethodCall::Execute\<close> and in \<^verbatim>\<open>NewInstance::Execute\<close>;
  \<open>ExecuteCompound\<close> is the loop of \<^verbatim>\<open>Compound::Execute\<close>.
\<close>

fun ExecuteArgs :: "Exec \<Rightarrow> Statement list \<Rightarrow> ObjectHolder list \<Rightarrow> Closure \<Rightarrow> State
      \<Rightarrow> (ObjectHolder list) Outcome \<times> Closure \<times> State" where
  "ExecuteArgs exec [] actual_args closure st = (Inr actual_args, closure, st)"
| "ExecuteArgs exec (stmt # stmts) actual_args closure st =
     (case exec stmt closure st of
        (Inl f, closure1, st1) \<Rightarrow> (Inl f, closure1, st1)
      | (Inr h, closure1, st1) \<Rightarrow> ExecuteArgs exec stmts (actual_args @ [h]) closure1 st1)"

fun ExecuteCompound :: "Exec \<Rightarrow> Statement list \<Rightarrow> Closure \<Rightarrow> State \<Rightarrow> unit Outcome \<times> Closure \<times> State" where
  "ExecuteCompound exec [] closure st = (Inr (), closure, st)"
| "ExecuteCompound exec (stmt # stmts) closure st =
     (case exec stmt closure st of
        (Inl f, closure1, st1) \<Rightarrow> (Inl f, closure1, st1)
      | (Inr h, closure1, st1) \<Rightarrow> ExecuteCompound exec stmts closure1 st1)"

text \<open>
  The virtual \<^verbatim>\<open>Print\<close>: that of \<^verbatim>\<open>Number\<close>, \<^verbatim>\<open>String\<close>, \<^verbatim>\<open>Bool\<close> and \<^verbatim>\<open>Class\<close> writes
  the value, that of \<^verbatim>\<open>ClassInstance\<close> (src/unnamed/part_000) calls \<^verbatim>\<open>__str__\<close> and
  prints what it returns, through \<^verbatim>\<open>operator->\<close> of the returned holder.
\<close>

fun PrintObject_step :: "Exec \<Rightarrow> Printer \<Rightarrow> Object \<Rightarrow> State \<Rightarrow> string Outcome \<times> State" where
  "PrintObject_step exec print_object (Number v) st = (Inr (text_of_int v), st)"
| "PrintObject_step exec print_object (String s) st = (Inr s, st)"
| "PrintObject_step exec print_object (Bool b) st = (Inr (if b then ''True'' else ''False''), st)"
| "PrintObject_step exec print_object (ClassObj c) st = (Inr (''Class '' @ class_name c), st)"
| "PrintObject_step exec print_object (ClassInstance this) st =
     (case instance_at st this of
        None \<Rightarrow> (Inl Undefined, st)
      | Some inst \<Rightarrow>
          if HasMethod (inst_cls inst) ''__str__'' 0 then
            (case Call exec this ''__str__'' [] st of
               (Inl f, st1) \<Rightarrow> (Inl f, st1)
             | (Inr None, st1) \<Rightarrow> (Inl Undefined, st1)
             | (Inr (Some obj), st1) \<Rightarrow> print_object obj st1)
          else (Inr (text_of_pointer this), st))"

text \<open>
  The loop of \<^verbatim>\<open>Print::Execute\<close>; \<open>first\<close> says that no argument has been printed yet.
\<close>

fun ExecutePrint :: "Exec \<Rightarrow> Printer \<Rightarrow> Statement list \<Rightarrow> bool \<Rightarrow> Closure \<Rightarrow> State
      \<Rightarrow> unit Outcome \<times> Closure \<times> State" where
  "ExecutePrint exec print_object [] first closure st = (Inr (), closure, st)"
| "ExecutePrint exec print_object (arg # args) first closure st =
     (case exec arg closure st of
        (Inl f, closure1, st1) \<Rightarrow> (Inl f, closure1, st1)
      | (Inr holder, closure1, st1) \<Rightarrow>
          (let st2 = (if first then st1 else write_out '' '' st1) in
           case holder of
             None \<Rightarrow> ExecutePrint exec print_object args False closure1 (write_out ''None'' st2)
           | Some obj \<Rightarrow>
               (case print_object obj st2 of
                  (Inl f, st3) \<Rightarrow> (Inl f, closure1, st3)
                | (Inr str, st3) \<Rightarrow> ExecutePrint exec print_object args False closure1 (write_out str st3))))"

text \<open>
  \<^verbatim>\<open>Execute\<close> of each kind of statement, in the order of the second file in
  src/runtime.cpp; the node of a constant comes first.

  In \<^verbatim>\<open>NewInstance::Execute\<close> the holder stored under the self name is the only owner of the
  new instance, and \<^verbatim>\<open>instance\<close> is a plain pointer to it. \<^verbatim>\<open>HasMethod\<close> is called through
  the pointer at once. \<^verbatim>\<open>Call\<close> is called through it after the arguments have been
  evaluated, in the closure of the caller: an argument that is a constructor call itself
  stores its own instance under the same name and destroys the holder. So the model
  calls \<^verbatim>\<open>__init__\<close> only where the arguments have left the name bound to the new
  instance, and answers \<open>Unowned\<close> where they have not.
\<close>

fun Execute_step :: "Exec \<Rightarrow> Printer \<Rightarrow> Statement \<Rightarrow> Closure \<Rightarrow> State
      \<Rightarrow> ObjectHolder Outcome \<times> Closure \<times> State" where
  "Execute_step exec print_object (ValueStatement v) closure st = (Inr v, closure, st)"
| "Execute_step exec print_object (VariableValue dotted_ids) closure st =
     (VariableValue_loop (GetName dotted_ids) st closure dotted_ids None, closure, st)"
| "Execute_step exec print_object (Assignment var_name rv) closure st =
     (case exec rv closure (SetSelfName var_name st) of
        (Inl f, closure', st') \<Rightarrow> (Inl f, closure', st')
      | (Inr h, closure', st') \<Rightarrow> (Inr h, closure'(var_name \<mapsto> h), st'))"
| "Execute_step exec print_object (FieldAssignment dotted_ids field_name rv) closure st =
     (case FieldAssignment_loop st closure dotted_ids None of
        Inl f \<Rightarrow> (Inl f, closure, st)
      | Inr target \<Rightarrow>
          (case exec rv closure st of
             (Inl f, closure', st') \<Rightarrow> (Inl f, closure', st')
           | (Inr h, closure', st') \<Rightarrow>
               (case target of
                  None \<Rightarrow> (Inr h, closure'(field_name \<mapsto> h), st')
                | Some a \<Rightarrow>
                    if a < length (instances st')
                    then (Inr h, closure', set_field a field_name h st')
                    else (Inl Undefined, closure', st'))))"
| "Execute_step exec print_object (Print args) closure st =
     (case ExecutePrint exec print_object args True closure st of
        (Inl f, closure', st') \<Rightarrow> (Inl f, closure', st')
      | (Inr u, closure', st') \<Rightarrow> (Inr None, closure', write_out [CHR ''\<newline>''] st'))"
| "Execute_step exec print_object (MethodCall object method args) closure st =
     (case exec object closure st of
        (Inl f, closure1, st1) \<Rightarrow> (Inl f, closure1, st1)
      | (Inr holder, closure1, st1) \<Rightarrow>
          (case as_ClassInstance holder of
             None \<Rightarrow> (Inr None, closure1, st1)
           | Some a \<Rightarrow>
               (case instance_at st1 a of
                  None \<Rightarrow> (Inl Undefined, closure1, st1)
                | Some inst \<Rightarrow>
                    if HasMethod (inst_cls inst) method (length args) then
                      (case ExecuteArgs exec args [] closure1 st1 of
                         (Inl f, closure2, st2) \<Rightarrow> (Inl f, closure2, st2)
                       | (Inr actual_args, closure2, st2) \<Rightarrow>
                           (case Call exec a method actual_args st2 of
                              (r, st3) \<Rightarrow> (r, closure2, st3)))
                    else (Inr None, closure1, st1))))"
| "Execute_step exec print_object (Stringify argument) closure st =
     (case exec argument closure st of
        (Inl f, closure1, st1) \<Rightarrow> (Inl f, closure1, st1)
      | (Inr holder, closure1, st1) \<Rightarrow>
          (case holder of
             None \<Rightarrow> (Inr (Some (String ''None'')), closure1, st1)
           | Some obj \<Rightarrow>
               (case print_object obj st1 of
                  (Inl f, st2) \<Rightarrow> (Inl f, closure1, st2)
                | (Inr str, st2) \<Rightarrow> (Inr (Some (String str)), closure1, st2))))"
| "Execute_step exec print_object (Add lhs rhs) closure st =
     (case exec lhs closure st of
        (Inl f, closure1, st1) \<Rightarrow> (Inl f, closure1, st1)
      | (Inr lhs_holder, closure1, st1) \<Rightarrow>
          (case exec rhs closure1 st1 of
             (Inl f, closure2, st2) \<Rightarrow> (Inl f, closure2, st2)
           | (Inr rhs_holder, closure2, st2) \<Rightarrow>
               (case both (as_Number lhs_holder) (as_Number rhs_holder) of
                  Some (a, b) \<Rightarrow> (Own_Number (a + b), closure2, st2)
                | None \<Rightarrow>
                    (case both (as_String lhs_holder) (as_String rhs_holder) of
                       Some (a, b) \<Rightarrow> (Inr (Some (String (a @ b))), closure2, st2)
                     | None \<Rightarrow>
                         (case both (as_ClassInstance lhs_holder) rhs_holder of
                            None \<Rightarrow> (Inl (Throws (runtime_error ''Invalid arguments in Add'')), closure2, st2)
                          | Some (a, r) \<Rightarrow>
                              (case instance_at st2 a of
                                 None \<Rightarrow> (Inl Undefined, closure2, st2)
                               | Some inst \<Rightarrow>
                                   if HasMethod (inst_cls inst) ''__add__'' 1 then
                                     (case Call exec a ''__add__'' [rhs_holder] st2 of
                                        (r, st3) \<Rightarrow> (r, closure2, st3))
                                   else (Inl (Throws (runtime_error ''Invalid arguments in Add'')),
                                         closure2, st2)))))))"
| "Execute_step exec print_object (Sub lhs rhs) closure st =
     (case exec lhs closure st of
        (Inl f, closure1, st1) \<Rightarrow> (Inl f, closure1, st1)
      | (Inr lhs_holder, closure1, st1) \<Rightarrow>
          (case exec rhs closure1 st1 of
             (Inl f, closure2, st2) \<Rightarrow> (Inl f, closure2, st2)
           | (Inr rhs_holder, closure2, st2) \<Rightarrow>
               (case both (as_Number lhs_holder) (as_Number rhs_holder) of
                  Some (a, b) \<Rightarrow> (Own_Number (a - b), closure2, st2)
                | None \<Rightarrow> (Inl (Throws (runtime_error ''Invalid arguments in Sub'')), closure2, st2))))"
| "Execute_step exec print_object (Mult lhs rhs) closure st =
     (case exec lhs closure st of
        (Inl f, closure1, st1) \<Rightarrow> (Inl f, closure1, st1)
      | (Inr lhs_holder, closure1, st1) \<Rightarrow>
          (case exec rhs closure1 st1 of
             (Inl f, closure2, st2) \<Rightarrow> (Inl f, closure2, st2)
           | (Inr rhs_holder, closure2, st2) \<Rightarrow>
               (case both (as_Number lhs_holder) (as_Number rhs_holder) of
                  Some (a, b) \<Rightarrow> (Own_Number (a * b), closure2, st2)
                | None \<Rightarrow> (Inl (Throws (runtime_error ''Invalid arguments in Mul'')), closure2, st2))))"
| "Execute_step exec print_object (Div lhs rhs) closure st =
     (case exec lhs closure st of
        (Inl f, closure1, st1) \<Rightarrow> (Inl f, closure1, st1)
      | (Inr lhs_holder, closure1, st1) \<Rightarrow>
          (case exec rhs closure1 st1 of
             (Inl f, closure2, st2) \<Rightarrow> (Inl f, closure2, st2)
           | (Inr rhs_holder, closure2, st2) \<Rightarrow>
               (case both (as_Number lhs_holder) (as_Number rhs_holder) of
                  Some (a, b) \<Rightarrow> (divide_Numbers a b, closure2, st2)
                | None \<Rightarrow> (Inl (Throws (runtime_error ''Invalid arguments in Div'')), closure2, st2))))"
| "Execute_step exec print_object (Compound args) closure st =
     (case ExecuteCompound exec args closure st of
        (Inl f, closure', st') \<Rightarrow> (Inl f, closure', st')
      | (Inr u, closure', st') \<Rightarrow> (Inr None, closure', st'))"
| "Execute_step exec print_object (Return statement) closure st =
     (case exec statement closure st of
        (Inl f, closure', st') \<Rightarrow> (Inl f, closure', st')
      | (Inr holder, closure', st') \<Rightarrow> (Inl (Throws (ReturnException holder)), closure', st'))"
| "Execute_step exec print_object (ClassDefinition cls) closure st =
     (case as_Class cls of
        None \<Rightarrow> (Inl Undefined, closure, st)
      | Some c \<Rightarrow> (Inr cls, closure(class_name c \<mapsto> cls), st))"
| "Execute_step exec print_object (IfElse condition if_body else_body) closure st =
     (case exec condition closure st of
        (Inl f, closure1, st1) \<Rightarrow> (Inl f, closure1, st1)
      | (Inr cond_holder, closure1, st1) \<Rightarrow>
          if IsTrue cond_holder then exec if_body closure1 st1
          else
            (case else_body of
               Some e \<Rightarrow> exec e closure1 st1
             | None \<Rightarrow> (Inr None, closure1, st1)))"
| "Execute_step exec print_object (Or lhs rhs) closure st =
     (case exec lhs closure st of
        (Inl f, closure1, st1) \<Rightarrow> (Inl f, closure1, st1)
      | (Inr lhs_holder, closure1, st1) \<Rightarrow>
          (case exec rhs closure1 st1 of
             (Inl f, closure2, st2) \<Rightarrow> (Inl f, closure2, st2)
           | (Inr rhs_holder, closure2, st2) \<Rightarrow>
               if lhs_holder \<noteq> None \<and> rhs_holder \<noteq> None
               then (Inr (Some (Bool (IsTrue lhs_holder \<or> IsTrue rhs_holder))), closure2, st2)
               else (Inl (Throws (runtime_error ''Invalid arguments in Or'')), closure2, st2)))"
| "Execute_step exec print_object (And lhs rhs) closure st =
     (case exec lhs closure st of
        (Inl f, closure1, st1) \<Rightarrow> (Inl f, closure1, st1)
      | (Inr lhs_holder, closure1, st1) \<Rightarrow>
          (case exec rhs closure1 st1 of
             (Inl f, closure2, st2) \<Rightarrow> (Inl f, closure2, st2)
           | (Inr rhs_holder, closure2, st2) \<Rightarrow>
               if lhs_holder \<noteq> None \<and> rhs_holder \<noteq> None
               then (Inr (Some (Bool (IsTrue lhs_holder \<and> IsTrue rhs_holder))), closure2, st2)
               else (Inl (Throws (runtime_error ''Invalid arguments in And'')), closure2, st2)))"
| "Execute_step exec print_object (Not_stmt argument) closure st =
     (case exec argument closure st of
        (Inl f, closure1, st1) \<Rightarrow> (Inl f, closure1, st1)
      | (Inr holder, closure1, st1) \<Rightarrow>
          if holder \<noteq> None
          then (Inr (Some (Bool (\<not> IsTrue holder))), closure1, st1)
          else (Inl (Throws (runtime_error ''Invalid arguments in Not'')), closure1, st1))"
| "Execute_step exec print_object (Comparison cmp lhs rhs) closure st =
     (case exec lhs closure st of
        (Inl f, closure1, st1) \<Rightarrow> (Inl f, closure1, st1)
      | (Inr lhs_holder, closure1, st1) \<Rightarrow>
          (case exec rhs closure1 st1 of
             (Inl f, closure2, st2) \<Rightarrow> (Inl f, closure2, st2)
           | (Inr rhs_holder, closure2, st2) \<Rightarrow>
               (case (case cmp of
                        CmpEqual \<Rightarrow> Equal exec lhs_holder rhs_holder st2
                      | CmpNotEqual \<Rightarrow> NotEqual exec lhs_holder rhs_holder st2
                      | CmpLess \<Rightarrow> Less exec lhs_holder rhs_holder st2
                      | CmpGreater \<Rightarrow> Greater exec lhs_holder rhs_holder st2
                      | CmpLessOrEqual \<Rightarrow> LessOrEqual exec lhs_holder rhs_holder st2
                      | CmpGreaterOrEqual \<Rightarrow> GreaterOrEqual exec lhs_holder rhs_holder st2) of
                  (Inl f, st3) \<Rightarrow> (Inl f, closure2, st3)
                | (Inr b, st3) \<Rightarrow> (Inr (Some (Bool b)), closure2, st3))))"
| "Execute_step exec print_object (NewInstance cls args) closure st =
     (let self_name = GetSelfName st;
          a = length (instances st);
          closure1 = closure(self_name \<mapsto> Some (ClassInstance a));
          st1 = new_instance cls st
      in if HasMethod cls ''__init__'' (length args) then
           (case ExecuteArgs exec args [] closure1 st1 of
              (Inl f, closure2, st2) \<Rightarrow> (Inl f, closure2, st2)
            | (Inr actual_args, closure2, st2) \<Rightarrow>
                if closure2 self_name \<noteq> Some (Some (ClassInstance a))
                then (Inl Unowned, closure2, st2)
                else
                  (case Call exec a ''__init__'' actual_args st2 of
                     (Inl f, st3) \<Rightarrow> (Inl f, closure2, st3)
                   | (Inr r, st3) \<Rightarrow>
                       (case closure2 self_name of
                          None \<Rightarrow> (Inl (Throws out_of_range), closure2, st3)
                        | Some h \<Rightarrow> (Inr h, closure2, st3))))
         else (Inr (Some (ClassInstance a)), closure1, st1))"
| "Execute_step exec print_object (MethodBody method_body) closure st =
     (case exec method_body closure st of
        (Inl (Throws (ReturnException result)), closure', st') \<Rightarrow> (Inr result, closure', st')
      | (r, closure', st') \<Rightarrow> (r, closure', st'))"

text \<open>
  The recursion: with no depth left the answer is \<open>OutOfFuel\<close>, and with \<open>Suc n\<close> the
  statement is executed with \<open>Execute n\<close> and \<open>PrintObject n\<close> for the calls it makes.
\<close>

fun Execute :: "nat \<Rightarrow> Exec"
and PrintObject :: "nat \<Rightarrow> Printer" where
  "Execute 0 stmt closure st = (Inl OutOfFuel, closure, st)"
| "Execute (Suc n) stmt closure st = Execute_step (Execute n) (PrintObject n) stmt closure st"
| "PrintObject 0 obj st = (Inl OutOfFuel, st)"
| "PrintObject (Suc n) obj st = PrintObject_step (Execute n) (PrintObject n) obj st"

subsection \<open>The call of a method in src/runtime.cpp\<close>

text \<open>
  \<^verbatim>\<open>ClassInstance::HasMethod\<close> and \<^verbatim>\<open>ClassInstance::Call\<close> of src/runtime.cpp, the
  earlier state of the runtime. \<^verbatim>\<open>Call\<close> looks the method up with the \<^verbatim>\<open>GetMethod\<close> of
  its own file and runs the body on \<^verbatim>\<open>closure_\<close>, the fields of the receiver: the model
  hands the body the fields and stores the closure the body leaves as the fields again.
  Before that, \<^verbatim>\<open>Call\<close> casts the constness of the method away and assigns the actual
  arguments to its \<^verbatim>\<open>formal_params\<close>; the statement overwrites a list of parameter
  names with holders, which has no counterpart among values whose classes never
  change, and the model leaves it out.
\<close>

definition HasMethod_draft :: "Class \<Rightarrow> string \<Rightarrow> nat \<Rightarrow> bool" where
  "HasMethod_draft cls m argument_count =
     (case GetMethod_draft cls m of
        Some p_method \<Rightarrow> length (formal_params p_method) = argument_count
      | None \<Rightarrow> False)"

definition store_fields :: "nat \<Rightarrow> Closure \<Rightarrow> State \<Rightarrow> State" where
  "store_fields a new_fields st =
     (if a < length (instances st)
      then st\<lparr>instances := (instances st)[a := (instances st ! a)\<lparr>inst_fields := new_fields\<rparr>]\<rparr>
      else st)"

definition Call_draft :: "Exec \<Rightarrow> nat \<Rightarrow> string \<Rightarrow> ObjectHolder list \<Rightarrow> State \<Rightarrow> ObjectHolder Outcome \<times> State" where
  "Call_draft exec this method actual_args st =
     (case instance_at st this of
        None \<Rightarrow> (Inl Undefined, st)
      | Some inst \<Rightarrow>
          if \<not> HasMethod_draft (inst_cls inst) method (length actual_args)
          then (Inl (Throws (runtime_error ''Method not find.'')), st)
          else
            (case GetMethod_draft (inst_cls inst) method of
               None \<Rightarrow> (Inl Undefined, st)
             | Some p_method \<Rightarrow>
                 (case exec (body p_method) (inst_fields inst) st of
                    (r, closure', st') \<Rightarrow> (r, store_fields this closure' st'))))"

text \<open>
  The comparison functions of src/runtime.cpp other than \<^verbatim>\<open>Equal\<close> are stubs: each throws
  whatever it is given.
\<close>

definition Less_draft :: "ObjectHolder \<Rightarrow> ObjectHolder \<Rightarrow> State \<Rightarrow> bool Outcome \<times> State" where
  "Less_draft lhs rhs st = (Inl (Throws (runtime_error ''Cannot compare objects for less'')), st)"

definition NotEqual_draft :: "ObjectHolder \<Rightarrow> ObjectHolder \<Rightarrow> State \<Rightarrow> bool Outcome \<times> State" where
  "NotEqual_draft lhs rhs st = (Inl (Throws (runtime_error ''Cannot compare objects for equality'')), st)"

definition Greater_draft :: "ObjectHolder \<Rightarrow> ObjectHolder \<Rightarrow> State \<Rightarrow> bool Outcome \<times> State" where
  "Greater_draft lhs rhs st = (Inl (Throws (runtime_error ''Cannot compare objects for equality'')), st)"

definition LessOrEqual_draft :: "ObjectHolder \<Rightarrow> ObjectHolder \<Rightarrow> State \<Rightarrow> bool Outcome \<times> State" where
  "LessOrEqual_draft lhs rhs st = (Inl (Throws (runtime_error ''Cannot compare objects for equality'')), st)"

definition GreaterOrEqual_draft :: "ObjectHolder \<Rightarrow> ObjectHolder \<Rightarrow> State \<Rightarrow> bool Outcome \<times> State" where
  "GreaterOrEqual_draft lhs rhs st = (Inl (Throws (runtime_error ''Cannot compare objects for equality'')), st)"

section \<open>Notions for the properties of the evaluator\<close>

text \<open>
  An expression, as the arguments of a call are in the source language: a constant, a
  variable, a method call, \<^verbatim>\<open>str\<close>, an arithmetic, logical or comparison operation, of
  expressions. The constructor call \<^verbatim>\<open>NewInstance\<close> is left out on purpose: it writes to the
  closure it runs in.
\<close>

fun expression :: "Statement \<Rightarrow> bool" where
  "expression (ValueStatement v) = True"
| "expression (VariableValue dotted_ids) = True"
| "expression (MethodCall object method args) = (expression object \<and> list_all expression args)"
| "expression (Stringify argument) = expression argument"
| "expression (Add lhs rhs) = (expression lhs \<and> expression rhs)"
| "expression (Sub lhs rhs) = (expression lhs \<and> expression rhs)"
| "expression (Mult lhs rhs) = (expression lhs \<and> expression rhs)"
| "expression (Div lhs rhs) = (expression lhs \<and> expression rhs)"
| "expression (Or lhs rhs) = (expression lhs \<and> expression rhs)"
| "expression (And lhs rhs) = (expression lhs \<and> expression rhs)"
| "expression (Not_stmt argument) = expression argument"
| "expression (Comparison cmp lhs rhs) = (expression lhs \<and> expression rhs)"
| "expression stmt = False"

text \<open>\<open>keeps_closure exec\<close>: whatever an expression ends in, \<open>exec\<close> returns the closure it was given.\<close>

definition keeps_closure :: "Exec \<Rightarrow> bool" where
  "keeps_closure exec =
     (\<forall>stmt closure st r closure' st'.
        expression stmt \<longrightarrow> exec stmt closure st = (r, closure', st') \<longrightarrow> closure' = closure)"

text \<open>
  A property \<open>Q\<close> of the state is stable when each single change that the evaluator makes
  to a state keeps it; \<open>exec_keeps Q exec\<close> and \<open>print_keeps Q print_object\<close> say that
  a whole call keeps it, whatever the call ends in.
\<close>

definition stable :: "(State \<Rightarrow> bool) \<Rightarrow> bool" where
  "stable Q =
     (\<forall>st. Q st \<longrightarrow>
        (\<forall>s. Q (write_out s st)) \<and> (\<forall>nm. Q (SetSelfName nm st))
        \<and> (\<forall>a f h. a < length (instances st) \<longrightarrow> Q (set_field a f h st))
        \<and> (\<forall>c. Q (new_instance c st)))"

definition exec_keeps :: "(State \<Rightarrow> bool) \<Rightarrow> Exec \<Rightarrow> bool" where
  "exec_keeps Q exec =
     (\<forall>stmt closure st r closure' st'. exec stmt closure st = (r, closure', st') \<longrightarrow> Q st \<longrightarrow> Q st')"

definition print_keeps :: "(State \<Rightarrow> bool) \<Rightarrow> Printer \<Rightarrow> bool" where
  "print_keeps Q print_object =
     (\<forall>obj st r st'. print_object obj st = (r, st') \<longrightarrow> Q st \<longrightarrow> Q st')"

text \<open>The classes of the first instances of a state are the list \<open>base\<close>.\<close>

definition classes_kept :: "Class list \<Rightarrow> State \<Rightarrow> bool" where
  "classes_kept base st = (take (length base) (map inst_cls (instances st)) = base)"

section \<open>Classes of the examples\<close>

text \<open>
  \<open>Keeper\<close> has a method that returns its argument. The constructor of \<open>Selfish\<close> reads
  the variable \<open>x\<close>. \<open>Plain\<close> has no method, and the constructor of \<open>Pair\<close> takes two
  arguments and does nothing; that of \<open>Box\<close> takes one.
\<close>

definition Keeper :: Class where
  "Keeper = Class ''Keeper'' [Method ''get'' [''a''] (MethodBody (Return (VariableValue [''a''])))] None"


definition Plain :: Class where
  "Plain = Class ''Plain'' [] None"

definition Pair_cls :: Class where
  "Pair_cls = Class ''Pair'' [Method ''__init__'' [''p'', ''q''] (MethodBody (Compound []))] None"

definition Box :: Class where
  "Box = Class ''Box'' [Method ''__init__'' [''p''] (MethodBody (Compound []))] None"

section \<open>Method lookup\<close>

lemma index_methods_dom:
  "dom (index_methods ms i tab) = dom tab \<union> name ` set ms"
  by (induction ms arbitrary: i tab) auto

lemma index_methods_range:
  assumes "index_methods ms i tab m = Some k"
  shows "tab m = Some k \<or> (i \<le> k \<and> k < i + length ms \<and> name (ms ! (k - i)) = m)"
  using assms
proof (induction ms i tab rule: index_methods.induct)
  case (1 i tab)
  then show ?case by simp
next
  case (2 x xs i tab)
  from "2.IH" [OF "2.prems" [simplified]]
  show ?case
  proof
    assume "(tab(name x \<mapsto> i)) m = Some k"
    then show ?thesis by (auto split: if_splits)
  next
    assume h: "Suc i \<le> k \<and> k < Suc i + length xs \<and> name (xs ! (k - Suc i)) = m"
    then have "k - i = Suc (k - Suc i)" by arith
    with h show ?thesis by auto
  qed
qed

lemma own_method_in_range:
  assumes "methods_by_name c m = Some k"
  shows "k < length (class_methods c) \<and> name (class_methods c ! k) = m"
  using index_methods_range [of "class_methods c" 0 Map.empty m k] assms
  by (simp add: methods_by_name_def)

lemma own_method_declared:
  "(methods_by_name c m \<noteq> None) = declares m c"
proof -
  have "dom (methods_by_name c) = name ` set (class_methods c)"
    by (simp add: methods_by_name_def index_methods_dom)
  then show ?thesis by (auto simp: declares_def dom_def)
qed

lemma GetMethod_walk:
  "GetMethod c m =
     (case find (declares m) (parent_chain c) of
        None \<Rightarrow> None
      | Some k \<Rightarrow> GetMethod_draft k m)"
proof (induction c m rule: GetMethod.induct)
  case (1 nm ms par m)
  show ?case
  proof (cases "index_methods ms 0 Map.empty m")
    case None
    then have nd: "\<not> declares m (Class nm ms par)"
      using own_method_declared [of "Class nm ms par" m]
      by (simp add: methods_by_name_def)
    show ?thesis
    proof (cases par)
      case None
      with nd \<open>index_methods ms 0 Map.empty m = None\<close> show ?thesis by simp
    next
      case (Some p)
      with nd \<open>index_methods ms 0 Map.empty m = None\<close> "1.IH" [of p]
      show ?thesis by simp
    qed
  next
    case (Some i)
    then have d: "declares m (Class nm ms par)"
      using own_method_declared [of "Class nm ms par" m]
      by (simp add: methods_by_name_def)
    with Some show ?thesis
      by (simp add: GetMethod_draft_def methods_by_name_def)
  qed
qed

lemma GetMethod_named:
  "GetMethod c m = Some meth \<Longrightarrow> name meth = m"
proof (induction c m rule: GetMethod.induct)
  case (1 nm ms par m)
  show ?case
  proof (cases "index_methods ms 0 Map.empty m")
    case None
    with "1.prems" "1.IH" show ?thesis by (cases par) auto
  next
    case (Some i)
    with own_method_in_range [of "Class nm ms par" m i] "1.prems"
    show ?thesis by (auto simp: methods_by_name_def)
  qed
qed

text \<open>
  Method lookup with inheritance in src/unnamed/part_000: \<open>GetMethod\<close> returns what the
  first class on the walk \<open>C, parent(C), ...\<close> that declares \<open>m\<close> holds under that name,
  a method called \<open>m\<close>, and the null pointer when no class on the walk declares \<open>m\<close>.
\<close>

theorem GetMethod_inherits:
  "(\<forall>k \<in> set (parent_chain c). \<not> declares m k) \<longrightarrow> GetMethod c m = None"
  "find (declares m) (parent_chain c) = Some k \<longrightarrow>
     (\<exists>meth. GetMethod c m = Some meth \<and> name meth = m \<and> meth \<in> set (class_methods k)
        \<and> GetMethod_draft k m = Some meth)"
proof -
  show "(\<forall>k \<in> set (parent_chain c). \<not> declares m k) \<longrightarrow> GetMethod c m = None"
  proof
    assume "\<forall>k \<in> set (parent_chain c). \<not> declares m k"
    then have "find (declares m) (parent_chain c) = None"
      by (simp add: find_None_iff)
    then show "GetMethod c m = None" by (simp add: GetMethod_walk)
  qed
next
  show "find (declares m) (parent_chain c) = Some k \<longrightarrow>
     (\<exists>meth. GetMethod c m = Some meth \<and> name meth = m \<and> meth \<in> set (class_methods k)
        \<and> GetMethod_draft k m = Some meth)"
  proof
    assume f: "find (declares m) (parent_chain c) = Some k"
    then have "declares m k" by (auto simp: find_Some_iff)
    then obtain i where i: "methods_by_name k m = Some i"
      using own_method_declared [of k m] by auto
    from own_method_in_range [OF i] have "class_methods k ! i \<in> set (class_methods k)"
      and "name (class_methods k ! i) = m" by auto
    with f i show "\<exists>meth. GetMethod c m = Some meth \<and> name meth = m
        \<and> meth \<in> set (class_methods k) \<and> GetMethod_draft k m = Some meth"
      by (simp add: GetMethod_walk GetMethod_draft_def)
  qed
qed

text \<open>
  Claim C2, at a child class whose parent alone declares \<open>run\<close>: the lookup of
  src/runtime.cpp answers with the null pointer, where the lookup of
  src/unnamed/part_000 finds the parent's method.
\<close>

theorem GetMethod_draft_misses_parent:
  "GetMethod_draft
     (Class ''Child'' []
        (Some (Class ''Base'' [Method ''run'' [] (Compound [])] None))) ''run'' = None
   \<and> GetMethod
     (Class ''Child'' []
        (Some (Class ''Base'' [Method ''run'' [] (Compound [])] None))) ''run''
       = Some (Method ''run'' [] (Compound []))"
  by (simp add: GetMethod_draft_def methods_by_name_def)

section \<open>Truth values\<close>

text \<open>
  \<open>IsTrue\<close> of src/unnamed/part_000 on every kind of holder: the empty holder, a class
  and a class instance are false.
\<close>

theorem IsTrue_cases:
  "IsTrue None = False"
  "IsTrue (Some (Bool b)) = b"
  "IsTrue (Some (Number n)) = (n \<noteq> 0)"
  "IsTrue (Some (String s)) = (s \<noteq> '''')"
  "IsTrue (Some (ClassObj c)) = False"
  "IsTrue (Some (ClassInstance a)) = False"
  by simp_all

text \<open>
  Claim C4, at a holder of a class and at a holder of a class instance: \<open>IsTrue\<close> of
  src/runtime.cpp answers true for both.
\<close>

theorem IsTrue_draft_objects_true:
  "IsTrue_draft (Some (ClassObj (Class ''A'' [] None))) = True
   \<and> IsTrue_draft (Some (ClassInstance 0)) = True"
  by simp

section \<open>Properties of the lexer\<close>

lemmas lexer_defs = lex_def new_Lexer_def NextToken_def emit_line_def ReadLine_def
  SkipSpaces_def SkipComment_def ReadString_def ReadNumber_def ReadIdentifier_def
  ReadComparison_def IsEmpty_def IsEofOnly_def isdigit_def isalpha_def keyword_def
  stoi_def decimal_def digit_value_def INT_MAX_def escaped_def Let_def

subsection \<open>Indentation at the end of the input\<close>

text \<open>
  Claim C5, at a program whose last line is indented and does not end in a newline:
  \<^verbatim>\<open>if a:\<close>, then \<^verbatim>\<open>print 1\<close> two spaces in. \<^verbatim>\<open>ReadLine\<close> puts \<^verbatim>\<open>Newline\<close> and \<^verbatim>\<open>Eof\<close>
  after the tokens of that last line, so the line is not \<^verbatim>\<open>IsEofOnly\<close> and the third
  \<^verbatim>\<open>if\<close> of \<^verbatim>\<open>NextToken\<close> emits no \<^verbatim>\<open>Dedent\<close>. After the constructor and eight calls
  of \<^verbatim>\<open>NextToken\<close> the current token is \<^verbatim>\<open>Eof\<close>, the input is used up, and the tokens
  hold one \<^verbatim>\<open>Indent\<close> and no \<^verbatim>\<open>Dedent\<close>; a further call changes nothing.
\<close>

theorem Indent_without_Dedent_at_Eof:
  "lex 8 (''if a:'' @ [CHR ''\<newline>''] @ ''  print 1'') =
     Inr (Eof_t,
          \<lparr>lexer_in = [],
           lexer_tokens = [If_t, Id_t ''a'', Char_t CHR '':'', Newline_t,
                           Indent_t, Print_t, Number_t 1, Newline_t, Eof_t],
           curr_pos = 8, current_indent = 2\<rparr>)
   \<and> lex 9 (''if a:'' @ [CHR ''\<newline>''] @ ''  print 1'')
       = lex 8 (''if a:'' @ [CHR ''\<newline>''] @ ''  print 1'')
   \<and> count_list [If_t, Id_t ''a'', Char_t CHR '':'', Newline_t,
                  Indent_t, Print_t, Number_t 1, Newline_t, Eof_t] Indent_t = 1
   \<and> count_list [If_t, Id_t ''a'', Char_t CHR '':'', Newline_t,
                  Indent_t, Print_t, Number_t 1, Newline_t, Eof_t] Dedent_t = 0"
  by (simp add: lexer_defs eval_nat_numeral)

text \<open>
  The same program with a newline at its end: the last line read holds \<^verbatim>\<open>Eof\<close> alone,
  and the \<^verbatim>\<open>Dedent\<close> is emitted before it.
\<close>

lemma Dedent_before_Eof_after_newline:
  "lex 9 (''if a:'' @ [CHR ''\<newline>''] @ ''  print 1'' @ [CHR ''\<newline>'']) =
     Inr (Eof_t,
          \<lparr>lexer_in = [],
           lexer_tokens = [If_t, Id_t ''a'', Char_t CHR '':'', Newline_t,
                           Indent_t, Print_t, Number_t 1, Newline_t, Dedent_t, Eof_t],
           curr_pos = 9, current_indent = 0\<rparr>)"
  by (simp add: lexer_defs eval_nat_numeral)

subsection \<open>An exclamation mark on its own\<close>

text \<open>
  In \<^verbatim>\<open>TextLine::ReadLine\<close> an exclamation mark that is not followed by \<open>=\<close> fails the
  test for a comparison and reaches the last branch, which appends \<^verbatim>\<open>Char\<close>.
\<close>

lemma ReadLine_loop_exclamation:
  "take 1 inp \<noteq> ''='' \<Longrightarrow>
     ReadLine_loop tokens (CHR ''!'' # inp) = ReadLine_loop (tokens @ [Char_t CHR ''!'']) inp"
  by (simp add: isdigit_def isalpha_def)

text \<open>
  Claim C8, at the line \<^verbatim>\<open>x ! y\<close>: the lexer throws nothing and its second token is
  \<^verbatim>\<open>Char{'!'}\<close>. \<^verbatim>\<open>ReadComparison\<close> of the second lexer in src/lexer.cpp, given the same
  exclamation mark and the same rest of the line, throws \<^verbatim>\<open>LexerError\<close>.
\<close>

theorem solitary_exclamation_is_Char_token:
  "lex 1 ''x ! y'' =
     Inr (Char_t CHR ''!'',
          \<lparr>lexer_in = [],
           lexer_tokens = [Id_t ''x'', Char_t CHR ''!'', Id_t ''y'', Newline_t, Eof_t],
           curr_pos = 1, current_indent = 0\<rparr>)
   \<and> ReadComparison_draft [Id_t ''x''] '' y'' CHR ''!'' = Inl (LexerError ''! without ='')"
  by (simp add: lexer_defs ReadComparison_draft_def eval_nat_numeral)

subsection \<open>Number literals\<close>

text \<open>\<open>decimal\<close> is the value of a string of digits in base ten.\<close>

lemma decimal_Nil: "decimal [] = 0"
  by (simp add: decimal_def)

lemma decimal_snoc: "decimal (ds @ [d]) = 10 * decimal ds + digit_value d"
  by (simp add: decimal_def)

lemma isdigit_not_special:
  "isdigit d \<Longrightarrow> d \<noteq> CHR '' '' \<and> d \<noteq> CHR ''#'' \<and> d \<noteq> CHR ''\<newline>''
     \<and> d \<noteq> CHR 0x22 \<and> d \<noteq> CHR 0x27"
  by (auto simp: isdigit_def)

lemma digits_then_rest:
  assumes "list_all isdigit ds" and "rest = [] \<or> \<not> isdigit (hd rest)"
  shows "takeWhile isdigit (ds @ rest) = ds" and "dropWhile isdigit (ds @ rest) = rest"
proof -
  from assms(2) have t: "takeWhile isdigit rest = []" and d: "dropWhile isdigit rest = rest"
    by (cases rest; simp)+
  from assms(1) have a: "\<forall>x \<in> set ds. isdigit x" by (simp add: list_all_iff)
  from a t show "takeWhile isdigit (ds @ rest) = ds" by (simp add: takeWhile_append2)
  from a d show "dropWhile isdigit (ds @ rest) = rest" by (simp add: dropWhile_append2)
qed

text \<open>
  Claim C9, at the literal \<^verbatim>\<open>2147483648\<close>, which is \<open>2^31\<close>: it is a string of digits
  whose value fits a signed 64-bit integer, and the lexer throws the
  \<^verbatim>\<open>std::out_of_range\<close> of \<^verbatim>\<open>std::stoi\<close> on it.
\<close>

theorem literal_beyond_int_counterexample:
  "list_all isdigit ''2147483648''
   \<and> decimal ''2147483648'' = 2 ^ 31
   \<and> decimal ''2147483648'' \<le> 2 ^ 63 - 1
   \<and> new_Lexer ''2147483648'' = Inl out_of_range_stoi"
  by (simp add: lexer_defs)

text \<open>
  Claim C9, amended: wherever \<^verbatim>\<open>ReadLine\<close> stands before a number literal (one or more
  decimal digits \<open>ds\<close>, followed by the end of the input or by a character that is not a
  digit), it appends a \<^verbatim>\<open>Number\<close> token that carries exactly the literal's value and
  goes on behind the literal, provided the value is at most \<open>INT_MAX = 2^31 - 1\<close>; on a
  literal of a larger value it throws \<^verbatim>\<open>std::out_of_range\<close> and produces no token.
\<close>

theorem number_literal_int_range:
  assumes "ds \<noteq> []" and "list_all isdigit ds" and "rest = [] \<or> \<not> isdigit (hd rest)"
  shows "ReadLine_loop tokens (ds @ rest) =
           (if decimal ds \<le> INT_MAX
            then ReadLine_loop (tokens @ [Number_t (decimal ds)]) rest
            else Inl out_of_range_stoi)"
proof -
  from assms(1) obtain d ds' where ds: "ds = d # ds'" by (cases ds) auto
  with assms(2) have d: "isdigit d" and ds': "list_all isdigit ds'" by simp_all
  from digits_then_rest [OF ds' assms(3)]
  have rn: "ReadNumber tokens (ds' @ rest) d =
      (if decimal ds \<le> INT_MAX then Inr (tokens @ [Number_t (decimal ds)], rest)
       else Inl out_of_range_stoi)"
    by (simp add: ReadNumber_def stoi_def ds)
  from isdigit_not_special [OF d] d
  have "ReadLine_loop tokens (d # ds' @ rest) =
      (case ReadNumber tokens (ds' @ rest) d of
         Inl e \<Rightarrow> Inl e
       | Inr (tokens', inp') \<Rightarrow> ReadLine_loop tokens' inp')"
    by simp
  with rn ds show ?thesis by simp
qed

text \<open>
  The theorem at the literal \<^verbatim>\<open>2147483647\<close>, which is \<open>INT_MAX\<close>, in the line
  \<^verbatim>\<open>x = 2147483647 + 1\<close> and on its own, and at \<^verbatim>\<open>2147483648\<close>.
\<close>

theorem number_literal_int_range_witness:
  "ReadLine_loop [Id_t ''x'', Char_t CHR ''=''] ''2147483647 + 1''
     = ReadLine_loop [Id_t ''x'', Char_t CHR ''='', Number_t 2147483647] '' + 1''
   \<and> ReadLine_loop [] ''2147483647'' = Inr ([Number_t 2147483647, Newline_t, Eof_t], [])
   \<and> ReadLine_loop [] ''2147483648'' = Inl out_of_range_stoi"
  using number_literal_int_range [of "''2147483647''" "'' + 1''" "[Id_t ''x'', Char_t CHR ''='']"]
        number_literal_int_range [of "''2147483647''" "[]" "[]"]
        number_literal_int_range [of "''2147483648''" "[]" "[]"]
  by (simp add: isdigit_def decimal_def digit_value_def INT_MAX_def IsEmpty_def)

section \<open>Properties of the evaluator\<close>

lemmas eval_defs = Call_def Call_locals_def HasMethod_def instance_at_def SetSelfName_def
  GetSelfName_def new_instance_def write_out_def set_field_def both_def Own_Number_def
  Number_MIN_def Number_MAX_def divide_Numbers_def truncated_quotient_def Equal_def Less_def
  NotEqual_def Greater_def LessOrEqual_def GreaterOrEqual_def Equal_values_def Less_values_def
  Equal_rest_def Less_rest_def Let_def

subsection \<open>Expressions leave the closure as it is\<close>

lemma keeps_closureD:
  "keeps_closure exec \<Longrightarrow> expression stmt \<Longrightarrow> exec stmt closure st = (r, closure', st')
     \<Longrightarrow> closure' = closure"
  unfolding keeps_closure_def by blast

lemma ExecuteArgs_keeps_closure:
  assumes "keeps_closure exec"
  shows "list_all expression args \<Longrightarrow> ExecuteArgs exec args acc closure st = (r, closure', st')
     \<Longrightarrow> closure' = closure"
proof (induction args arbitrary: acc closure st)
  case Nil
  then show ?case by simp
next
  case (Cons a args)
  show ?case
  proof (cases "exec a closure st")
    case (fields r1 c1 s1)
    with Cons.prems(1) assms have c1: "c1 = closure"
      by (auto dest: keeps_closureD)
    show ?thesis
    proof (cases r1)
      case (Inl f)
      with fields c1 Cons.prems(2) show ?thesis by simp
    next
      case (Inr h)
      with fields c1 Cons.prems have "ExecuteArgs exec args (acc @ [h]) closure s1 = (r, closure', st')"
        by simp
      with Cons.IH Cons.prems(1) show ?thesis by simp
    qed
  qed
qed

lemma two_operands_keep_closure:
  assumes "keeps_closure exec" and "expression lhs" and "expression rhs"
    and "exec lhs closure st = (r1, closure1, st1)" and "exec rhs closure1 st1 = (r2, closure2, st2)"
  shows "closure1 = closure \<and> closure2 = closure"
  using assms by (metis keeps_closureD)

lemma Execute_step_keeps_closure:
  assumes k: "keeps_closure exec"
  shows "keeps_closure (Execute_step exec print_object)"
  unfolding keeps_closure_def
proof (intro allI impI)
  fix stmt closure st r closure' st'
  assume e: "expression stmt" and x: "Execute_step exec print_object stmt closure st = (r, closure', st')"
  note d = keeps_closureD [OF k]
  show "closure' = closure"
  proof (cases stmt)
    case (ValueStatement v)
    with x show ?thesis by simp
  next
    case (VariableValue ids)
    with x show ?thesis by simp
  next
    case (MethodCall object method_name args)
    with e have eo: "expression object" and ea: "list_all expression args" by simp_all
    obtain r1 c1 s1 where o: "exec object closure st = (r1, c1, s1)" by (cases "exec object closure st")
    from d [OF eo o] have c1: "c1 = closure" .
    show ?thesis
    proof (cases "ExecuteArgs exec args [] closure s1")
      case (fields r2 c2 s2)
      from ExecuteArgs_keeps_closure [OF k ea fields] have "c2 = closure" .
      with x MethodCall o c1 fields show ?thesis
        by (auto split: sum.splits option.splits if_splits prod.splits)
    qed
  next
    case (Stringify argument)
    with e have ea: "expression argument" by simp
    obtain r1 c1 s1 where o: "exec argument closure st = (r1, c1, s1)" by (cases "exec argument closure st")
    from d [OF ea o] x Stringify o show ?thesis
      by (auto split: sum.splits option.splits prod.splits)
  next
    case (Add lhs rhs)
    with e have el: "expression lhs" and er: "expression rhs" by simp_all
    obtain r1 c1 s1 where l: "exec lhs closure st = (r1, c1, s1)" by (cases "exec lhs closure st")
    obtain r2 c2 s2 where r: "exec rhs c1 s1 = (r2, c2, s2)" by (cases "exec rhs c1 s1")
    from two_operands_keep_closure [OF k el er l r] x Add l r show ?thesis
      by (auto split: sum.splits option.splits prod.splits if_splits)
  next
    case (Sub lhs rhs)
    with e have el: "expression lhs" and er: "expression rhs" by simp_all
    obtain r1 c1 s1 where l: "exec lhs closure st = (r1, c1, s1)" by (cases "exec lhs closure st")
    obtain r2 c2 s2 where r: "exec rhs c1 s1 = (r2, c2, s2)" by (cases "exec rhs c1 s1")
    from two_operands_keep_closure [OF k el er l r] x Sub l r show ?thesis
      by (auto split: sum.splits option.splits prod.splits)
  next
    case (Mult lhs rhs)
    with e have el: "expression lhs" and er: "expression rhs" by simp_all
    obtain r1 c1 s1 where l: "exec lhs closure st = (r1, c1, s1)" by (cases "exec lhs closure st")
    obtain r2 c2 s2 where r: "exec rhs c1 s1 = (r2, c2, s2)" by (cases "exec rhs c1 s1")
    from two_operands_keep_closure [OF k el er l r] x Mult l r show ?thesis
      by (auto split: sum.splits option.splits prod.splits)
  next
    case (Div lhs rhs)
    with e have el: "expression lhs" and er: "expression rhs" by simp_all
    obtain r1 c1 s1 where l: "exec lhs closure st = (r1, c1, s1)" by (cases "exec lhs closure st")
    obtain r2 c2 s2 where r: "exec rhs c1 s1 = (r2, c2, s2)" by (cases "exec rhs c1 s1")
    from two_operands_keep_closure [OF k el er l r] x Div l r show ?thesis
      by (auto split: sum.splits option.splits prod.splits)
  next
    case (Or lhs rhs)
    with e have el: "expression lhs" and er: "expression rhs" by simp_all
    obtain r1 c1 s1 where l: "exec lhs closure st = (r1, c1, s1)" by (cases "exec lhs closure st")
    obtain r2 c2 s2 where r: "exec rhs c1 s1 = (r2, c2, s2)" by (cases "exec rhs c1 s1")
    from two_operands_keep_closure [OF k el er l r] x Or l r show ?thesis
      by (auto split: sum.splits if_splits)
  next
    case (And lhs rhs)
    with e have el: "expression lhs" and er: "expression rhs" by simp_all
    obtain r1 c1 s1 where l: "exec lhs closure st = (r1, c1, s1)" by (cases "exec lhs closure st")
    obtain r2 c2 s2 where r: "exec rhs c1 s1 = (r2, c2, s2)" by (cases "exec rhs c1 s1")
    from two_operands_keep_closure [OF k el er l r] x And l r show ?thesis
      by (auto split: sum.splits if_splits)
  next
    case (Not_stmt argument)
    with e have ea: "expression argument" by simp
    obtain r1 c1 s1 where o: "exec argument closure st = (r1, c1, s1)" by (cases "exec argument closure st")
    from d [OF ea o] x Not_stmt o show ?thesis
      by (auto split: sum.splits if_splits)
  next
    case (Comparison cmp lhs rhs)
    with e have el: "expression lhs" and er: "expression rhs" by simp_all
    obtain r1 c1 s1 where l: "exec lhs closure st = (r1, c1, s1)" by (cases "exec lhs closure st")
    obtain r2 c2 s2 where r: "exec rhs c1 s1 = (r2, c2, s2)" by (cases "exec rhs c1 s1")
    from two_operands_keep_closure [OF k el er l r] x Comparison l r show ?thesis
      by (auto split: sum.splits prod.splits)
  qed (use e in simp_all)
qed

lemma Execute_keeps_closure: "keeps_closure (Execute n)"
proof (induction n)
  case 0
  show ?case by (simp add: keeps_closure_def)
next
  case (Suc n)
  from Execute_step_keeps_closure [OF Suc, of "PrintObject n"]
  show ?case by (simp add: keeps_closure_def)
qed

subsection \<open>Stable properties of the state\<close>

lemma exec_keepsD:
  "exec_keeps Q exec \<Longrightarrow> exec stmt closure st = (r, closure', st') \<Longrightarrow> Q st \<Longrightarrow> Q st'"
  unfolding exec_keeps_def by blast

lemma print_keepsD:
  "print_keeps Q print_object \<Longrightarrow> print_object obj st = (r, st') \<Longrightarrow> Q st \<Longrightarrow> Q st'"
  unfolding print_keeps_def by blast

lemma stableD:
  assumes "stable Q" and "Q st"
  shows "Q (write_out s st)" and "Q (SetSelfName nm st)" and "Q (new_instance c st)"
    and "a < length (instances st) \<Longrightarrow> Q (set_field a f h st)"
  using assms unfolding stable_def by blast+

lemma Call_keeps:
  assumes "exec_keeps Q exec" and "Call exec this m args st = (r, st')" and "Q st"
  shows "Q st'"
  using assms(2,3) exec_keepsD [OF assms(1)]
  by (auto simp: Call_def split: option.splits if_splits prod.splits)

lemma Equal_keeps:
  assumes "exec_keeps Q exec" and "Equal exec lhs rhs st = (r, st')" and "Q st"
  shows "Q st'"
  using assms(2,3) Call_keeps [OF assms(1)]
  by (auto simp: Equal_def split: option.splits if_splits prod.splits sum.splits)

lemma Less_keeps:
  assumes "exec_keeps Q exec" and "Less exec lhs rhs st = (r, st')" and "Q st"
  shows "Q st'"
  using assms(2,3) Call_keeps [OF assms(1)]
  by (auto simp: Less_def split: option.splits if_splits prod.splits sum.splits)

lemma NotEqual_keeps:
  assumes "exec_keeps Q exec" and "NotEqual exec lhs rhs st = (r, st')" and "Q st"
  shows "Q st'"
  using assms(2,3) Equal_keeps [OF assms(1)]
  by (auto simp: NotEqual_def split: prod.splits sum.splits)

lemma Greater_keeps:
  assumes "exec_keeps Q exec" and "Greater exec lhs rhs st = (r, st')" and "Q st"
  shows "Q st'"
proof (cases "Less exec lhs rhs st")
  case (Pair r1 s1)
  from Less_keeps [OF assms(1) Pair assms(3)] have q1: "Q s1" .
  show ?thesis
  proof (cases "Equal exec lhs rhs s1")
    case e: (Pair r2 s2)
    from Equal_keeps [OF assms(1) e q1] have "Q s2" .
    with assms(2) Pair e q1 show ?thesis
      by (auto simp: Greater_def split: sum.splits if_splits)
  qed
qed

lemma LessOrEqual_keeps:
  assumes "exec_keeps Q exec" and "LessOrEqual exec lhs rhs st = (r, st')" and "Q st"
  shows "Q st'"
  using assms(2,3) Greater_keeps [OF assms(1)]
  by (auto simp: LessOrEqual_def split: prod.splits sum.splits)

lemma GreaterOrEqual_keeps:
  assumes "exec_keeps Q exec" and "GreaterOrEqual exec lhs rhs st = (r, st')" and "Q st"
  shows "Q st'"
  using assms(2,3) Less_keeps [OF assms(1)]
  by (auto simp: GreaterOrEqual_def split: prod.splits sum.splits)

lemma ExecuteArgs_keeps:
  assumes "exec_keeps Q exec"
  shows "ExecuteArgs exec args acc closure st = (r, closure', st') \<Longrightarrow> Q st \<Longrightarrow> Q st'"
proof (induction args arbitrary: acc closure st)
  case Nil
  then show ?case by simp
next
  case (Cons a args)
  obtain r1 c1 s1 where a: "exec a closure st = (r1, c1, s1)" by (cases "exec a closure st")
  from exec_keepsD [OF assms a Cons.prems(2)] have "Q s1" .
  with Cons.prems(1) a Cons.IH show ?case
    by (cases r1) auto
qed

lemma ExecuteCompound_keeps:
  assumes "exec_keeps Q exec"
  shows "ExecuteCompound exec stmts closure st = (r, closure', st') \<Longrightarrow> Q st \<Longrightarrow> Q st'"
proof (induction stmts arbitrary: closure st)
  case Nil
  then show ?case by simp
next
  case (Cons a stmts)
  obtain r1 c1 s1 where a: "exec a closure st = (r1, c1, s1)" by (cases "exec a closure st")
  from exec_keepsD [OF assms a Cons.prems(2)] have "Q s1" .
  with Cons.prems(1) a Cons.IH show ?case
    by (cases r1) auto
qed

lemma PrintObject_step_keeps:
  assumes "exec_keeps Q exec" and "print_keeps Q print_object"
  shows "print_keeps Q (PrintObject_step exec print_object)"
  unfolding print_keeps_def
proof (intro allI impI)
  fix obj st r st'
  assume x: "PrintObject_step exec print_object obj st = (r, st')" and q: "Q st"
  show "Q st'"
  proof (cases obj)
    case (ClassInstance this)
    obtain r1 s1 where c: "Call exec this ''__str__'' [] st = (r1, s1)"
      by (cases "Call exec this ''__str__'' [] st")
    from Call_keeps [OF assms(1) c q] have q1: "Q s1" .
    with x ClassInstance c q print_keepsD [OF assms(2)] show ?thesis
      by (auto split: option.splits if_splits sum.splits)
  qed (use x q in auto)
qed

lemma ExecutePrint_keeps:
  assumes "stable Q" and "exec_keeps Q exec" and "print_keeps Q print_object"
  shows "ExecutePrint exec print_object args first closure st = (r, closure', st') \<Longrightarrow> Q st \<Longrightarrow> Q st'"
proof (induction args arbitrary: first closure st)
  case Nil
  then show ?case by simp
next
  case (Cons a args)
  obtain r1 c1 s1 where a: "exec a closure st = (r1, c1, s1)" by (cases "exec a closure st")
  from exec_keepsD [OF assms(2) a Cons.prems(2)] have q1: "Q s1" .
  define s2 where "s2 = (if first then s1 else write_out '' '' s1)"
  from q1 stableD(1) [OF assms(1)] have q2: "Q s2" by (simp add: s2_def)
  show ?case
  proof (cases r1)
    case (Inl f)
    with Cons.prems(1) a q1 show ?thesis by simp
  next
    case (Inr holder)
    show ?thesis
    proof (cases holder)
      case None
      with Inr Cons.prems(1) a have "ExecutePrint exec print_object args False c1 (write_out ''None'' s2)
          = (r, closure', st')" by (simp add: s2_def)
      from Cons.IH [OF this stableD(1) [OF assms(1) q2]] show ?thesis .
    next
      case (Some obj)
      obtain r3 s3 where p: "print_object obj s2 = (r3, s3)" by (cases "print_object obj s2")
      from print_keepsD [OF assms(3) p q2] have q3: "Q s3" .
      show ?thesis
      proof (cases r3)
        case f: (Inl f)
        with Some Inr Cons.prems(1) a p q3 show ?thesis by (simp add: s2_def)
      next
        case t: (Inr str)
        with Some Inr Cons.prems(1) a p
        have "ExecutePrint exec print_object args False c1 (write_out str s3) = (r, closure', st')"
          by (simp add: s2_def)
        from Cons.IH [OF this stableD(1) [OF assms(1) q3]] show ?thesis .
      qed
    qed
  qed
qed

lemma Execute_step_keeps:
  assumes st: "stable Q" and k: "exec_keeps Q exec" and p: "print_keeps Q print_object"
  shows "exec_keeps Q (Execute_step exec print_object)"
  unfolding exec_keeps_def
proof (intro allI impI)
  fix stmt closure st r closure' st'
  assume x: "Execute_step exec print_object stmt closure st = (r, closure', st')" and q: "Q st"
  note d = exec_keepsD [OF k]
  show "Q st'"
  proof (cases stmt)
    case (ValueStatement v)
    with x q show ?thesis by simp
  next
    case (VariableValue ids)
    with x q show ?thesis by simp
  next
    case (Assignment var_name rv)
    obtain r1 c1 s1 where e: "exec rv closure (SetSelfName var_name st) = (r1, c1, s1)"
      by (cases "exec rv closure (SetSelfName var_name st)")
    from d [OF e stableD(2) [OF st q]] have "Q s1" .
    with x Assignment e show ?thesis by (auto split: sum.splits)
  next
    case (FieldAssignment ids field_name rv)
    obtain r1 c1 s1 where e: "exec rv closure st = (r1, c1, s1)" by (cases "exec rv closure st")
    from d [OF e q] have q1: "Q s1" .
    with x FieldAssignment e q stableD(4) [OF st q1] show ?thesis
      by (auto split: sum.splits option.splits if_splits)
  next
    case (Print args)
    obtain r1 c1 s1 where e: "ExecutePrint exec print_object args True closure st = (r1, c1, s1)"
      by (cases "ExecutePrint exec print_object args True closure st")
    from ExecutePrint_keeps [OF st k p e q] have q1: "Q s1" .
    with x Print e stableD(1) [OF st q1] show ?thesis by (auto split: sum.splits)
  next
    case (MethodCall object method_name args)
    obtain r1 c1 s1 where o: "exec object closure st = (r1, c1, s1)" by (cases "exec object closure st")
    from d [OF o q] have q1: "Q s1" .
    obtain r2 c2 s2 where a: "ExecuteArgs exec args [] c1 s1 = (r2, c2, s2)"
      by (cases "ExecuteArgs exec args [] c1 s1")
    from ExecuteArgs_keeps [OF k a q1] have q2: "Q s2" .
    from x MethodCall o a q1 q2 Call_keeps [OF k _ q2] show ?thesis
      by (auto split: sum.splits option.splits prod.splits if_splits)
  next
    case (Stringify argument)
    obtain r1 c1 s1 where o: "exec argument closure st = (r1, c1, s1)" by (cases "exec argument closure st")
    from d [OF o q] have q1: "Q s1" .
    from x Stringify o q1 print_keepsD [OF p _ q1] show ?thesis
      by (auto split: sum.splits option.splits prod.splits)
  next
    case (Add lhs rhs)
    obtain r1 c1 s1 where l: "exec lhs closure st = (r1, c1, s1)" by (cases "exec lhs closure st")
    obtain r2 c2 s2 where r: "exec rhs c1 s1 = (r2, c2, s2)" by (cases "exec rhs c1 s1")
    from d [OF l q] have q1: "Q s1" .
    from d [OF r q1] have q2: "Q s2" .
    from x Add l r q1 q2 Call_keeps [OF k _ q2] show ?thesis
      by (auto split: sum.splits option.splits prod.splits if_splits)
  next
    case (Sub lhs rhs)
    obtain r1 c1 s1 where l: "exec lhs closure st = (r1, c1, s1)" by (cases "exec lhs closure st")
    obtain r2 c2 s2 where r: "exec rhs c1 s1 = (r2, c2, s2)" by (cases "exec rhs c1 s1")
    from d [OF l q] have q1: "Q s1" .
    from d [OF r q1] have q2: "Q s2" .
    from x Sub l r q1 q2 show ?thesis
      by (auto split: sum.splits option.splits prod.splits if_splits)
  next
    case (Mult lhs rhs)
    obtain r1 c1 s1 where l: "exec lhs closure st = (r1, c1, s1)" by (cases "exec lhs closure st")
    obtain r2 c2 s2 where r: "exec rhs c1 s1 = (r2, c2, s2)" by (cases "exec rhs c1 s1")
    from d [OF l q] have q1: "Q s1" .
    from d [OF r q1] have q2: "Q s2" .
    from x Mult l r q1 q2 show ?thesis
      by (auto split: sum.splits option.splits prod.splits if_splits)
  next
    case (Div lhs rhs)
    obtain r1 c1 s1 where l: "exec lhs closure st = (r1, c1, s1)" by (cases "exec lhs closure st")
    obtain r2 c2 s2 where r: "exec rhs c1 s1 = (r2, c2, s2)" by (cases "exec rhs c1 s1")
    from d [OF l q] have q1: "Q s1" .
    from d [OF r q1] have q2: "Q s2" .
    from x Div l r q1 q2 show ?thesis
      by (auto split: sum.splits option.splits prod.splits if_splits)
  next
    case (Compound args)
    obtain r1 c1 s1 where e: "ExecuteCompound exec args closure st = (r1, c1, s1)"
      by (cases "ExecuteCompound exec args closure st")
    from ExecuteCompound_keeps [OF k e q] have "Q s1" .
    with x Compound e show ?thesis by (auto split: sum.splits)
  next
    case (Return statement)
    obtain r1 c1 s1 where e: "exec statement closure st = (r1, c1, s1)" by (cases "exec statement closure st")
    from d [OF e q] have "Q s1" .
    with x Return e show ?thesis by (auto split: sum.splits)
  next
    case (ClassDefinition cls)
    with x q show ?thesis by (auto split: option.splits)
  next
    case (IfElse condition if_body else_body)
    obtain r1 c1 s1 where e: "exec condition closure st = (r1, c1, s1)" by (cases "exec condition closure st")
    from d [OF e q] have q1: "Q s1" .
    with x IfElse e d [OF _ q1] show ?thesis
      by (auto split: sum.splits option.splits if_splits)
  next
    case (Or lhs rhs)
    obtain r1 c1 s1 where l: "exec lhs closure st = (r1, c1, s1)" by (cases "exec lhs closure st")
    obtain r2 c2 s2 where r: "exec rhs c1 s1 = (r2, c2, s2)" by (cases "exec rhs c1 s1")
    from d [OF l q] have q1: "Q s1" .
    from d [OF r q1] have q2: "Q s2" .
    from x Or l r q1 q2 show ?thesis
      by (auto split: sum.splits option.splits prod.splits if_splits)
  next
    case (And lhs rhs)
    obtain r1 c1 s1 where l: "exec lhs closure st = (r1, c1, s1)" by (cases "exec lhs closure st")
    obtain r2 c2 s2 where r: "exec rhs c1 s1 = (r2, c2, s2)" by (cases "exec rhs c1 s1")
    from d [OF l q] have q1: "Q s1" .
    from d [OF r q1] have q2: "Q s2" .
    from x And l r q1 q2 show ?thesis
      by (auto split: sum.splits option.splits prod.splits if_splits)
  next
    case (Not_stmt argument)
    obtain r1 c1 s1 where e: "exec argument closure st = (r1, c1, s1)" by (cases "exec argument closure st")
    from d [OF e q] have "Q s1" .
    with x Not_stmt e show ?thesis by (auto split: sum.splits if_splits)
  next
    case (Comparison cmp lhs rhs)
    obtain r1 c1 s1 where l: "exec lhs closure st = (r1, c1, s1)" by (cases "exec lhs closure st")
    obtain r2 c2 s2 where r: "exec rhs c1 s1 = (r2, c2, s2)" by (cases "exec rhs c1 s1")
    from d [OF l q] have q1: "Q s1" .
    from d [OF r q1] have q2: "Q s2" .
    note cmps = Equal_keeps [OF k _ q2] NotEqual_keeps [OF k _ q2] Less_keeps [OF k _ q2]
      Greater_keeps [OF k _ q2] LessOrEqual_keeps [OF k _ q2] GreaterOrEqual_keeps [OF k _ q2]
    from x Comparison l r q1 q2 cmps show ?thesis
      by (cases cmp) (auto split: sum.splits prod.splits)
  next
    case (NewInstance cls args)
    define c1 where "c1 = closure(GetSelfName st \<mapsto> Some (ClassInstance (length (instances st))))"
    from stableD(3) [OF st q] have q1: "Q (new_instance cls st)" .
    obtain r2 c2 s2 where a: "ExecuteArgs exec args [] c1 (new_instance cls st) = (r2, c2, s2)"
      by (cases "ExecuteArgs exec args [] c1 (new_instance cls st)")
    from ExecuteArgs_keeps [OF k a q1] have q2: "Q s2" .
    from x NewInstance a q1 q2 Call_keeps [OF k _ q2] show ?thesis
      by (auto simp: Let_def c1_def split: sum.splits option.splits prod.splits if_splits)
  next
    case (MethodBody method_body)
    obtain r1 c1 s1 where e: "exec method_body closure st = (r1, c1, s1)"
      by (cases "exec method_body closure st")
    from d [OF e q] have "Q s1" .
    with x MethodBody e show ?thesis
      by (auto split: sum.splits Failure.splits Exception.splits)
  qed
qed

theorem Execute_keeps:
  assumes "stable Q"
  shows "exec_keeps Q (Execute n) \<and> print_keeps Q (PrintObject n)"
proof (induction n)
  case 0
  show ?case by (simp add: exec_keeps_def print_keeps_def)
next
  case (Suc n)
  then have e: "exec_keeps Q (Execute n)" and p: "print_keeps Q (PrintObject n)" by simp_all
  from Execute_step_keeps [OF assms e p] PrintObject_step_keeps [OF e p]
  show ?case by (simp add: exec_keeps_def print_keeps_def)
qed
subsection \<open>The classes of the instances\<close>

lemma take_all_length: "take n ys = base \<Longrightarrow> length base = n \<Longrightarrow> n \<le> length ys"
  by (cases "n \<le> length ys") auto

lemma classes_kept_stable: "stable (classes_kept base)"
  unfolding stable_def
proof (intro allI impI conjI)
  fix st s
  assume "classes_kept base st"
  then show "classes_kept base (write_out s st)"
    by (simp add: classes_kept_def write_out_def)
next
  fix st nm
  assume "classes_kept base st"
  then show "classes_kept base (SetSelfName nm st)"
    by (simp add: classes_kept_def SetSelfName_def)
next
  fix st a f h
  assume k: "classes_kept base st" and a: "a < length (instances st)"
  have "map inst_cls ((instances st)[a := (instances st ! a)\<lparr>inst_fields := (inst_fields (instances st ! a))(f \<mapsto> h)\<rparr>])
      = map inst_cls (instances st)"
    using a by (simp add: map_update list_update_same_conv)
  with k show "classes_kept base (set_field a f h st)"
    by (simp add: classes_kept_def set_field_def)
next
  fix st c
  assume k: "classes_kept base st"
  then have "length base \<le> length (map inst_cls (instances st))"
    using take_all_length [of "length base" "map inst_cls (instances st)" base]
    by (simp add: classes_kept_def)
  with k show "classes_kept base (new_instance c st)"
    by (simp add: classes_kept_def new_instance_def)
qed

lemma classes_kept_instance:
  assumes "classes_kept (map inst_cls (instances st)) st'" and "instance_at st a = Some inst"
  shows "\<exists>inst'. instance_at st' a = Some inst' \<and> inst_cls inst' = inst_cls inst"
proof -
  from assms(2) have a: "a < length (instances st)" and i: "inst = instances st ! a"
    by (auto simp: instance_at_def split: if_splits)
  from assms(1) have t: "take (length (instances st)) (map inst_cls (instances st')) = map inst_cls (instances st)"
    by (simp add: classes_kept_def)
  from take_all_length [OF t] have le: "length (instances st) \<le> length (instances st')" by simp
  from a have "take (length (instances st)) (map inst_cls (instances st')) ! a = map inst_cls (instances st') ! a"
    by simp
  with t a le have "inst_cls (instances st' ! a) = inst_cls (instances st ! a)" by simp
  with a le i show ?thesis by (simp add: instance_at_def)
qed

lemma Execute_keeps_classes:
  assumes "Execute n stmt closure st = (r, closure', st')" and "instance_at st a = Some inst"
  shows "\<exists>inst'. instance_at st' a = Some inst' \<and> inst_cls inst' = inst_cls inst"
proof -
  have b: "classes_kept (map inst_cls (instances st)) st" by (simp add: classes_kept_def)
  from Execute_keeps [OF classes_kept_stable, of "map inst_cls (instances st)" n]
  have k: "exec_keeps (classes_kept (map inst_cls (instances st))) (Execute n)" by simp
  from exec_keepsD [OF k assms(1) b] have "classes_kept (map inst_cls (instances st)) st'" .
  from classes_kept_instance [OF this assms(2)] show ?thesis .
qed

lemma Call_keeps_classes:
  assumes "Call (Execute n) this m args st = (r, st')" and "instance_at st a = Some inst"
  shows "\<exists>inst'. instance_at st' a = Some inst' \<and> inst_cls inst' = inst_cls inst"
proof -
  have b: "classes_kept (map inst_cls (instances st)) st" by (simp add: classes_kept_def)
  from Execute_keeps [OF classes_kept_stable, of "map inst_cls (instances st)" n]
  have k: "exec_keeps (classes_kept (map inst_cls (instances st))) (Execute n)" by simp
  from Call_keeps [OF k assms(1) b] have "classes_kept (map inst_cls (instances st)) st'" .
  from classes_kept_instance [OF this assms(2)] show ?thesis .
qed

lemma ExecuteArgs_keeps_classes:
  assumes "ExecuteArgs (Execute n) args acc closure st = (r, closure', st')" and "instance_at st a = Some inst"
  shows "\<exists>inst'. instance_at st' a = Some inst' \<and> inst_cls inst' = inst_cls inst"
proof -
  have b: "classes_kept (map inst_cls (instances st)) st" by (simp add: classes_kept_def)
  from Execute_keeps [OF classes_kept_stable, of "map inst_cls (instances st)" n]
  have k: "exec_keeps (classes_kept (map inst_cls (instances st))) (Execute n)" by simp
  from ExecuteArgs_keeps [OF k assms(1) b] have "classes_kept (map inst_cls (instances st)) st'" .
  from classes_kept_instance [OF this assms(2)] show ?thesis .
qed

subsection \<open>Division\<close>

text \<open>
  \<^verbatim>\<open>Div::Execute\<close> on two numbers: the quotient truncated towards zero, and an execution
  without defined behaviour when the divisor is zero, or when the quotient overflows.
\<close>

lemma Div_of_Numbers:
  assumes "Execute n lhs closure st = (Inr (Some (Number a)), closure1, st1)"
    and "Execute n rhs closure1 st1 = (Inr (Some (Number b)), closure2, st2)"
  shows "Execute (Suc n) (Div lhs rhs) closure st =
           (if b = 0 then Inl Undefined
            else if Number_MIN \<le> truncated_quotient a b \<and> truncated_quotient a b \<le> Number_MAX
            then Inr (Some (Number (truncated_quotient a b)))
            else Inl Undefined, closure2, st2)"
  using assms by (simp add: both_def divide_Numbers_def Own_Number_def)

text \<open>
  Claim C7, at \<^verbatim>\<open>1 / 0\<close>: \<^verbatim>\<open>Div::Execute\<close> checks that both operands are numbers and then
  divides; nothing compares the divisor with zero, so the division by zero is executed
  and no exception is thrown. Beside it, \<^verbatim>\<open>-7 / 2\<close> is \<^verbatim>\<open>-3\<close>, the truncated quotient, and
  an operand that is no number makes \<^verbatim>\<open>Div::Execute\<close> throw \<^verbatim>\<open>runtime_error\<close>.
\<close>

theorem Div_by_zero_is_undefined:
  "Execute 2 (Div (ValueStatement (Some (Number 1))) (ValueStatement (Some (Number 0)))) closure st
     = (Inl Undefined, closure, st)
   \<and> Execute 2 (Div (ValueStatement (Some (Number (- 7)))) (ValueStatement (Some (Number 2)))) closure st
     = (Inr (Some (Number (- 3))), closure, st)
   \<and> Execute 2 (Div (ValueStatement (Some (Number 1))) (ValueStatement (Some (String ''a'')))) closure st
     = (Inl (Throws (runtime_error ''Invalid arguments in Div'')), closure, st)"
  by (simp add: eval_defs eval_nat_numeral)

subsection \<open>The derived comparisons\<close>

text \<open>
  Claim C3, for the comparison functions of src/unnamed/part_000 at every depth \<open>n\<close> of
  the evaluator, for all holders \<open>a\<close> and \<open>b\<close> and every state: \<^verbatim>\<open>NotEqual\<close> returns a
  value exactly when \<^verbatim>\<open>Equal\<close> returns the negated one, \<^verbatim>\<open>LessOrEqual\<close> exactly when
  \<^verbatim>\<open>Greater\<close> returns the negated one, \<^verbatim>\<open>GreaterOrEqual\<close> exactly when \<^verbatim>\<open>Less\<close> returns
  the negated one, and each leaves the state the other leaves. \<^verbatim>\<open>Greater\<close> returns a value
  exactly when \<^verbatim>\<open>Less\<close> returns one, \<open>l\<close>, and either \<open>l\<close> is true and \<^verbatim>\<open>Equal\<close> is not
  called, or \<^verbatim>\<open>Equal\<close>, called in the state that \<^verbatim>\<open>Less\<close> has left, returns one, \<open>e\<close>; the
  value of \<^verbatim>\<open>Greater\<close> is the negation of \<open>l \<or> e\<close>.
\<close>

theorem derived_comparators:
  "(NotEqual (Execute n) a b st = (Inr v, st')) = (Equal (Execute n) a b st = (Inr (\<not> v), st'))
   \<and> (Greater (Execute n) a b st = (Inr v, st')) =
       (\<exists>l st1. Less (Execute n) a b st = (Inr l, st1) \<and>
          (if l then v = (\<not> l) \<and> st' = st1
           else \<exists>e. Equal (Execute n) a b st1 = (Inr e, st') \<and> v = (\<not> (l \<or> e))))
   \<and> (LessOrEqual (Execute n) a b st = (Inr v, st')) = (Greater (Execute n) a b st = (Inr (\<not> v), st'))
   \<and> (GreaterOrEqual (Execute n) a b st = (Inr v, st')) = (Less (Execute n) a b st = (Inr (\<not> v), st'))"
proof (intro conjI)
  show "(NotEqual (Execute n) a b st = (Inr v, st')) = (Equal (Execute n) a b st = (Inr (\<not> v), st'))"
    by (auto simp: NotEqual_def split: prod.splits sum.splits)
  show "(LessOrEqual (Execute n) a b st = (Inr v, st')) = (Greater (Execute n) a b st = (Inr (\<not> v), st'))"
    by (auto simp: LessOrEqual_def split: prod.splits sum.splits)
  show "(GreaterOrEqual (Execute n) a b st = (Inr v, st')) = (Less (Execute n) a b st = (Inr (\<not> v), st'))"
    by (auto simp: GreaterOrEqual_def split: prod.splits sum.splits)
  show "(Greater (Execute n) a b st = (Inr v, st')) =
       (\<exists>l st1. Less (Execute n) a b st = (Inr l, st1) \<and>
          (if l then v = (\<not> l) \<and> st' = st1
           else \<exists>e. Equal (Execute n) a b st1 = (Inr e, st') \<and> v = (\<not> (l \<or> e))))"
    by (auto simp: Greater_def split: prod.splits sum.splits if_splits)
qed

text \<open>On two numbers no method is called, and the four are the comparisons of integers.\<close>

lemma comparisons_of_Numbers:
  "NotEqual exec (Some (Number x)) (Some (Number y)) st = (Inr (x \<noteq> y), st)
   \<and> Greater exec (Some (Number x)) (Some (Number y)) st = (Inr (x > y), st)
   \<and> LessOrEqual exec (Some (Number x)) (Some (Number y)) st = (Inr (x \<le> y), st)
   \<and> GreaterOrEqual exec (Some (Number x)) (Some (Number y)) st = (Inr (x \<ge> y), st)"
  by (auto simp: eval_defs)

text \<open>
  The stubs of src/runtime.cpp return no value at all, so there the four equations
  have no holders to speak of.
\<close>

lemma draft_comparisons_return_nothing:
  "NotEqual_draft a b st \<noteq> (Inr v, st') \<and> Greater_draft a b st \<noteq> (Inr v, st')
   \<and> LessOrEqual_draft a b st \<noteq> (Inr v, st') \<and> GreaterOrEqual_draft a b st \<noteq> (Inr v, st')
   \<and> Less_draft a b st \<noteq> (Inr v, st')"
  by (simp add: NotEqual_draft_def Greater_draft_def LessOrEqual_draft_def
        GreaterOrEqual_draft_def Less_draft_def)

subsection \<open>The closure of a method call\<close>

lemma bind_params_other:
  "k \<notin> set ps \<Longrightarrow> bind_params ps as locals k = locals k"
proof (induction ps arbitrary: as locals)
  case Nil
  show ?case by simp
next
  case (Cons p ps)
  then show ?case by (cases as) auto
qed

lemma bind_params_dom:
  "length ps = length as \<Longrightarrow> dom (bind_params ps as locals) = dom locals \<union> set ps"
proof (induction ps arbitrary: as locals)
  case Nil
  show ?case by simp
next
  case (Cons p ps)
  then show ?case by (cases as) auto
qed

lemma bind_params_nth:
  "length ps = length as \<Longrightarrow> distinct ps \<Longrightarrow> i < length ps
     \<Longrightarrow> bind_params ps as locals (ps ! i) = Some (as ! i)"
proof (induction ps arbitrary: as locals i)
  case Nil
  then show ?case by simp
next
  case (Cons p ps)
  then show ?case
    by (cases as; cases i) (auto simp: bind_params_other)
qed



text \<open>
  The call frame of src/unnamed/part_000.
  \<^verbatim>\<open>ClassInstance::Call\<close>, on a method of matching arity: the
  body is executed in the closure \<open>Call_locals\<close>, made for this call from nothing but
  \<open>self\<close> and the parameters; the receiver is still an instance of the same class when the
  call has returned, whatever it ends in, so the same name and arity resolve the same
  method again. With parameter names that differ from each other and from \<open>self\<close>,
  \<open>self\<close> is bound to the receiver and each parameter to the argument at its index.
\<close>

theorem Call_fresh_closure:
  assumes "instance_at st this = Some inst"
    and "HasMethod (inst_cls inst) m (length actual_args)"
  shows "\<exists>p_method.
           GetMethod (inst_cls inst) m = Some p_method \<and> name p_method = m
         \<and> length (formal_params p_method) = length actual_args
         \<and> Call (Execute n) this m actual_args st
             = (case Execute n (body p_method) (Call_locals this p_method actual_args) st of
                  (r, locals, st') \<Rightarrow> (r, st'))
         \<and> dom (Call_locals this p_method actual_args) = insert ''self'' (set (formal_params p_method))
         \<and> (distinct (''self'' # formal_params p_method) \<longrightarrow>
               Call_locals this p_method actual_args ''self'' = Some (Some (ClassInstance this))
             \<and> (\<forall>i < length actual_args.
                   Call_locals this p_method actual_args (formal_params p_method ! i)
                     = Some (actual_args ! i)))
         \<and> (\<forall>r st'. Call (Execute n) this m actual_args st = (r, st') \<longrightarrow>
               (\<exists>inst'. instance_at st' this = Some inst' \<and> inst_cls inst' = inst_cls inst
                  \<and> GetMethod (inst_cls inst') m = Some p_method
                  \<and> HasMethod (inst_cls inst') m (length actual_args)))"
proof -
  from assms(2) obtain p where g: "GetMethod (inst_cls inst) m = Some p"
    and l: "length (formal_params p) = length actual_args"
    by (auto simp: HasMethod_def split: option.splits)
  from GetMethod_named [OF g] have nm: "name p = m" .
  from assms g have c: "Call (Execute n) this m actual_args st
      = (case Execute n (body p) (Call_locals this p actual_args) st of (r, locals, st') \<Rightarrow> (r, st'))"
    by (simp add: Call_def)
  from bind_params_dom [OF l] have d: "dom (Call_locals this p actual_args) = insert ''self'' (set (formal_params p))"
    by (simp add: Call_locals_def)
  have b: "Call_locals this p actual_args ''self'' = Some (Some (ClassInstance this))
      \<and> (\<forall>i < length actual_args.
            Call_locals this p actual_args (formal_params p ! i) = Some (actual_args ! i))"
    if "distinct (''self'' # formal_params p)"
    using that l bind_params_other [of "''self''" "formal_params p"] bind_params_nth [OF l]
    by (simp add: Call_locals_def)
  have k: "\<exists>inst'. instance_at st' this = Some inst' \<and> inst_cls inst' = inst_cls inst
      \<and> GetMethod (inst_cls inst') m = Some p \<and> HasMethod (inst_cls inst') m (length actual_args)"
    if "Call (Execute n) this m actual_args st = (r, st')" for r st'
    using Call_keeps_classes [OF that assms(1)] g assms(2) by auto
  from g nm l c d b k show ?thesis by blast
qed

text \<open>The theorem at an instance of \<open>Keeper\<close> and the call \<^verbatim>\<open>get(7)\<close>.\<close>

theorem Call_fresh_closure_witness:
  "Call (Execute 3) 0 ''get'' [Some (Number 7)]
       \<lparr>instances = [\<lparr>inst_cls = Keeper, inst_fields = Map.empty\<rparr>], output_stream = [], self_name = []\<rparr>
     = (Inr (Some (Number 7)),
        \<lparr>instances = [\<lparr>inst_cls = Keeper, inst_fields = Map.empty\<rparr>], output_stream = [], self_name = []\<rparr>)
   \<and> (\<exists>p_method. GetMethod Keeper ''get'' = Some p_method
        \<and> Call_locals 0 p_method [Some (Number 7)] ''self'' = Some (Some (ClassInstance 0))
        \<and> Call_locals 0 p_method [Some (Number 7)] ''a'' = Some (Some (Number 7)))"
proof -
  let ?st = "\<lparr>instances = [\<lparr>inst_cls = Keeper, inst_fields = Map.empty\<rparr>], output_stream = [], self_name = []\<rparr>"
  have i: "instance_at ?st 0 = Some \<lparr>inst_cls = Keeper, inst_fields = Map.empty\<rparr>"
    by (simp add: instance_at_def)
  have h: "HasMethod (inst_cls \<lparr>inst_cls = Keeper, inst_fields = Map.empty\<rparr>) ''get'' (length [Some (Number 7)])"
    by (simp add: HasMethod_def Keeper_def)
  from Call_fresh_closure [OF i h, of 3] show ?thesis
    by (auto simp: Keeper_def eval_defs eval_nat_numeral)
qed

text \<open>
  Claim C1, at an instance of \<open>Keeper\<close> without fields and the call \<^verbatim>\<open>get(7)\<close>:
  \<^verbatim>\<open>ClassInstance::Call\<close> of src/runtime.cpp runs the body on the fields of the
  receiver, where neither \<open>self\<close> nor the parameter \<open>a\<close> is bound, and the body's
  \<^verbatim>\<open>return a\<close> throws; \<^verbatim>\<open>ClassInstance::Call\<close> of src/unnamed/part_000 returns \<open>7\<close>.
\<close>

theorem Call_draft_runs_on_fields:
  "Call_draft (Execute 3) 0 ''get'' [Some (Number 7)]
       \<lparr>instances = [\<lparr>inst_cls = Keeper, inst_fields = Map.empty\<rparr>], output_stream = [], self_name = []\<rparr>
     = (Inl (Throws (runtime_error ''Uncknown variable name: a'')),
        \<lparr>instances = [\<lparr>inst_cls = Keeper, inst_fields = Map.empty\<rparr>], output_stream = [], self_name = []\<rparr>)
   \<and> Call (Execute 3) 0 ''get'' [Some (Number 7)]
       \<lparr>instances = [\<lparr>inst_cls = Keeper, inst_fields = Map.empty\<rparr>], output_stream = [], self_name = []\<rparr>
     = (Inr (Some (Number 7)),
        \<lparr>instances = [\<lparr>inst_cls = Keeper, inst_fields = Map.empty\<rparr>], output_stream = [], self_name = []\<rparr>)"
  by (simp add: eval_defs Call_draft_def HasMethod_draft_def GetMethod_draft_def methods_by_name_def
        store_fields_def Keeper_def eval_nat_numeral)

subsection \<open>Assignment of a new instance\<close>




subsection \<open>A constructor that fails\<close>

text \<open>
  Claim C10, at \<^verbatim>\<open>Pair(Plain(), undefined)\<close> with the self name \<open>x\<close> and \<open>x\<close> bound to
  \<open>5\<close>: the first argument is a constructor call itself and writes its own instance,
  the second of the store, to the same name; the second argument throws. The closure is
  left holding the instance of \<open>Plain\<close>, not the fresh instance of \<open>Pair\<close>, which is
  the first of the store.
\<close>

theorem nested_constructor_counterexample:
  "Execute 5 (NewInstance Pair_cls [NewInstance Plain [], VariableValue [''undefined'']])
       (Map.empty(''x'' \<mapsto> Some (Number 5)))
       \<lparr>instances = [], output_stream = [], self_name = ''x''\<rparr>
     = (Inl (Throws (runtime_error ''Uncknown variable name: undefined'')),
        Map.empty(''x'' \<mapsto> Some (ClassInstance 1)),
        \<lparr>instances = [\<lparr>inst_cls = Pair_cls, inst_fields = Map.empty\<rparr>,
                      \<lparr>inst_cls = Plain, inst_fields = Map.empty\<rparr>],
         output_stream = [], self_name = ''x''\<rparr>)
   \<and> (Map.empty(''x'' \<mapsto> Some (ClassInstance 1))) ''x''
       \<noteq> Some (Some (ClassInstance (length (instances \<lparr>instances = [], output_stream = [], self_name = ''x''\<rparr>))))"
  by (simp add: eval_defs Pair_cls_def Plain_def eval_nat_numeral)

text \<open>
  Claim C10, amended to arguments that are expressions and construct no instance
  themselves. When \<^verbatim>\<open>NewInstance::Execute\<close> ends in a failure \<open>f\<close>, the class has an
  \<^verbatim>\<open>__init__\<close> of matching arity, and the failure is that of the evaluation of the
  arguments or that of the call of \<^verbatim>\<open>__init__\<close>, both of which started from the closure
  in which the self name is already bound to the new instance. The closure is left
  as the closure \<^verbatim>\<open>NewInstance::Execute\<close> was given with that one binding overwritten:
  under the self name it holds the address of the fresh instance, an address at which
  the state before held no instance and at which the state after holds an instance of
  the class.
\<close>

theorem NewInstance_not_atomic:
  assumes "list_all expression args"
    and "Execute (Suc n) (NewInstance cls args) closure st = (Inl f, closure', st')"
  shows "HasMethod cls ''__init__'' (length args)
     \<and> closure' = closure(GetSelfName st \<mapsto> Some (ClassInstance (length (instances st))))
     \<and> instance_at st (length (instances st)) = None
     \<and> (\<exists>inst. instance_at st' (length (instances st)) = Some inst \<and> inst_cls inst = cls)
     \<and> (ExecuteArgs (Execute n) args []
            (closure(GetSelfName st \<mapsto> Some (ClassInstance (length (instances st)))))
            (new_instance cls st) = (Inl f, closure', st')
         \<or> (\<exists>actual_args st2.
              ExecuteArgs (Execute n) args []
                (closure(GetSelfName st \<mapsto> Some (ClassInstance (length (instances st)))))
                (new_instance cls st) = (Inr actual_args, closure', st2)
              \<and> Call (Execute n) (length (instances st)) ''__init__'' actual_args st2 = (Inl f, st')))"
proof -
  let ?a = "length (instances st)"
  let ?c1 = "closure(GetSelfName st \<mapsto> Some (ClassInstance ?a))"
  let ?s1 = "new_instance cls st"
  from assms(2) have h: "HasMethod cls ''__init__'' (length args)"
    by (auto simp: Let_def split: if_splits)
  obtain r2 c2 s2 where a: "ExecuteArgs (Execute n) args [] ?c1 ?s1 = (r2, c2, s2)"
    by (cases "ExecuteArgs (Execute n) args [] ?c1 ?s1")
  from ExecuteArgs_keeps_closure [OF Execute_keeps_closure assms(1) a] have c2: "c2 = ?c1" .
  have i1: "instance_at ?s1 ?a = Some \<lparr>inst_cls = cls, inst_fields = Map.empty\<rparr>"
    by (simp add: instance_at_def new_instance_def)
  from ExecuteArgs_keeps_classes [OF a i1]
  obtain inst2 where i2: "instance_at s2 ?a = Some inst2" and k2: "inst_cls inst2 = cls" by auto
  have fresh: "instance_at st ?a = None" by (simp add: instance_at_def)
  show ?thesis
  proof (cases r2)
    case (Inl f2)
    with assms(2) h a c2 have "f2 = f" and "closure' = ?c1" and "st' = s2"
      by (auto simp: Let_def)
    with h a c2 Inl i2 k2 fresh show ?thesis by auto
  next
    case (Inr actual_args)
    obtain r3 s3 where c: "Call (Execute n) ?a ''__init__'' actual_args s2 = (r3, s3)"
      by (cases "Call (Execute n) ?a ''__init__'' actual_args s2")
    from Call_keeps_classes [OF c i2] k2
    obtain inst3 where i3: "instance_at s3 ?a = Some inst3" and k3: "inst_cls inst3 = cls" by auto
    have bound: "?c1 (GetSelfName st) = Some (Some (ClassInstance ?a))" by simp
    from assms(2) h a c2 Inr c bound have "r3 = Inl f" and "closure' = ?c1" and "st' = s3"
      by (auto simp: Let_def split: sum.splits option.splits)
    with h a c2 Inr c i3 k3 fresh show ?thesis by auto
  qed
qed

text \<open>
  The theorem at \<^verbatim>\<open>Box(undefined)\<close>, with the self name \<open>x\<close> and \<open>x\<close> bound to \<open>5\<close>: the
  argument throws, and \<open>x\<close> is left bound to the fresh instance.
\<close>

theorem NewInstance_not_atomic_witness:
  "list_all expression [VariableValue [''undefined'']]
   \<and> Execute 5 (NewInstance Box [VariableValue [''undefined'']])
       (Map.empty(''x'' \<mapsto> Some (Number 5)))
       \<lparr>instances = [], output_stream = [], self_name = ''x''\<rparr>
     = (Inl (Throws (runtime_error ''Uncknown variable name: undefined'')),
        Map.empty(''x'' \<mapsto> Some (ClassInstance 0)),
        \<lparr>instances = [\<lparr>inst_cls = Box, inst_fields = Map.empty\<rparr>],
         output_stream = [], self_name = ''x''\<rparr>)
   \<and> HasMethod Box ''__init__'' 1"
proof -
  have e: "list_all expression [VariableValue [''undefined'']]" by simp
  have x: "Execute (Suc 4) (NewInstance Box [VariableValue [''undefined'']])
       (Map.empty(''x'' \<mapsto> Some (Number 5)))
       \<lparr>instances = [], output_stream = [], self_name = ''x''\<rparr>
     = (Inl (Throws (runtime_error ''Uncknown variable name: undefined'')),
        Map.empty(''x'' \<mapsto> Some (ClassInstance 0)),
        \<lparr>instances = [\<lparr>inst_cls = Box, inst_fields = Map.empty\<rparr>],
         output_stream = [], self_name = ''x''\<rparr>)"
    by (simp add: eval_defs Box_def eval_nat_numeral)
  from NewInstance_not_atomic [OF e x] e x show ?thesis by (simp add: eval_nat_numeral)
qed

end
